theory Spec2Isabelle
  imports Main "HOL-Library.Sublist" "HOL-Library.AList"
begin

section \<open>The Python scanner of flyctl (scanner/python.go)\<close>

text \<open>
  A shallow embedding of \<^verbatim>\<open>src/scanner/python.go\<close>. Go strings are byte sequences and
  are modelled as \<^typ>\<open>string\<close> (a list of 8-bit characters); a rune is a natural number.
  Everything the Go code takes from its surroundings (the file system, the TOML and
  JSON decoders, the interpreter probe, the directory walk, the tables of Go's
  \<^verbatim>\<open>unicode\<close> package) is collected in the record \<open>world\<close>; the code's functions are
  pure functions of it.
\<close>

subsection \<open>UTF-8, as Go's \<^verbatim>\<open>unicode/utf8\<close> decodes and encodes it\<close>

definition RuneError :: nat where
  "RuneError = 0xFFFD"

text \<open>A rune that can be encoded: not a surrogate and not beyond \<^verbatim>\<open>MaxRune\<close>.\<close>

definition validRune :: "nat \<Rightarrow> bool" where
  "validRune r \<longleftrightarrow> r < 0xD800 \<or> (0xDFFF < r \<and> r \<le> 0x10FFFF)"

text \<open>
  \<open>cont\<close>: a continuation byte. \<open>second b0 b1\<close>: \<open>b1\<close> is accepted as the second
  byte after the first byte \<open>b0\<close> (the accept ranges of the decoder, which exclude
  overlong forms, surrogates and values beyond \<^verbatim>\<open>MaxRune\<close>).
\<close>

definition cont :: "nat \<Rightarrow> bool" where
  "cont b \<longleftrightarrow> 0x80 \<le> b \<and> b \<le> 0xBF"

definition second :: "nat \<Rightarrow> nat \<Rightarrow> bool" where
  "second b0 b1 \<longleftrightarrow>
     (if b0 = 0xE0 then 0xA0 \<le> b1 \<and> b1 \<le> 0xBF
      else if b0 = 0xED then 0x80 \<le> b1 \<and> b1 \<le> 0x9F
      else if b0 = 0xF0 then 0x90 \<le> b1 \<and> b1 \<le> 0xBF
      else if b0 = 0xF4 then 0x80 \<le> b1 \<and> b1 \<le> 0x8F
      else cont b1)"

text \<open>
  \<^verbatim>\<open>utf8.DecodeRuneInString\<close>: the first rune of the bytes and its width. Bytes that
  do not begin a well-formed encoding give \<^verbatim>\<open>RuneError\<close> with width 1 (width 0 for no
  bytes at all).
\<close>

fun DecodeRune :: "nat list \<Rightarrow> nat \<times> nat" where
  "DecodeRune [] = (RuneError, 0)"
| "DecodeRune (b0 # bs) =
     (if b0 < 0x80 then (b0, 1)
      else if 0xC2 \<le> b0 \<and> b0 \<le> 0xDF then
        (case bs of
           b1 # _ \<Rightarrow>
             if cont b1 then ((b0 - 0xC0) * 64 + (b1 - 0x80), 2) else (RuneError, 1)
         | _ \<Rightarrow> (RuneError, 1))
      else if 0xE0 \<le> b0 \<and> b0 \<le> 0xEF then
        (case bs of
           b1 # b2 # _ \<Rightarrow>
             if second b0 b1 \<and> cont b2
             then ((b0 - 0xE0) * 4096 + (b1 - 0x80) * 64 + (b2 - 0x80), 3)
             else (RuneError, 1)
         | _ \<Rightarrow> (RuneError, 1))
      else if 0xF0 \<le> b0 \<and> b0 \<le> 0xF4 then
        (case bs of
           b1 # b2 # b3 # _ \<Rightarrow>
             if second b0 b1 \<and> cont b2 \<and> cont b3
             then ((b0 - 0xF0) * 262144 + (b1 - 0x80) * 4096 + (b2 - 0x80) * 64 + (b3 - 0x80), 4)
             else (RuneError, 1)
         | _ \<Rightarrow> (RuneError, 1))
      else (RuneError, 1))"

text \<open>
  \<^verbatim>\<open>utf8.AppendRune\<close>: the encoding of a rune; a rune that cannot be encoded is written
  as \<^verbatim>\<open>RuneError\<close>.
\<close>

definition EncodeRune :: "nat \<Rightarrow> nat list" where
  "EncodeRune r =
     (if r < 0x80 then [r]
      else if r < 0x800 then [0xC0 + r div 64, 0x80 + r mod 64]
      else if \<not> validRune r then [0xEF, 0xBF, 0xBD]
      else if r < 0x10000 then
        [0xE0 + r div 4096, 0x80 + (r div 64) mod 64, 0x80 + r mod 64]
      else [0xF0 + r div 262144, 0x80 + (r div 4096) mod 64, 0x80 + (r div 64) mod 64,
            0x80 + r mod 64])"

lemma DecodeRune_width: "bs \<noteq> [] \<Longrightarrow> 0 < snd (DecodeRune bs)"
  by (cases bs) (auto split: list.splits)

text \<open>The runes of a string, as \<^verbatim>\<open>for _, c := range s\<close> yields them.\<close>

function decodeRunes :: "nat list \<Rightarrow> nat list" where
  "decodeRunes bs =
     (if bs = [] then []
      else fst (DecodeRune bs) # decodeRunes (drop (snd (DecodeRune bs)) bs))"
  by pat_completeness auto
termination
  by (relation "measure length") (auto simp: DecodeRune_width simp del: DecodeRune.simps)

declare decodeRunes.simps [simp del]

text \<open>
  \<^verbatim>\<open>utf8.DecodeLastRuneInString\<close>: the last rune of the bytes and its width. It looks
  back for the start of the last rune over at most four bytes (\<open>lastStart\<close>, the loop
  unrolled) and decodes from there; when that decoding does not end at the end of the
  bytes the result is \<^verbatim>\<open>RuneError\<close> with width 1.
\<close>

definition RuneStart :: "nat \<Rightarrow> bool" where
  "RuneStart b \<longleftrightarrow> b < 0x80 \<or> 0xC0 \<le> b"

definition lastStart :: "nat list \<Rightarrow> nat" where
  "lastStart bs =
     (let n = length bs
      in if 2 \<le> n \<and> RuneStart (bs ! (n - 2)) then n - 2
         else if 3 \<le> n \<and> RuneStart (bs ! (n - 3)) then n - 3
         else if 4 \<le> n \<and> RuneStart (bs ! (n - 4)) then n - 4
         else n - 5)"

definition DecodeLastRune :: "nat list \<Rightarrow> nat \<times> nat" where
  "DecodeLastRune bs =
     (if bs = [] then (RuneError, 0)
      else if last bs < 0x80 then (last bs, 1)
      else if lastStart bs + snd (DecodeRune (drop (lastStart bs) bs)) \<noteq> length bs
        then (RuneError, 1)
      else DecodeRune (drop (lastStart bs) bs))"

lemma lastStart_less: "bs \<noteq> [] \<Longrightarrow> lastStart bs < length bs"
  by (cases bs) (auto simp: lastStart_def Let_def)

lemma DecodeLastRune_width: "bs \<noteq> [] \<Longrightarrow> 0 < snd (DecodeLastRune bs)"
  using DecodeRune_width [of "drop (lastStart bs) bs"] lastStart_less [of bs]
  by (simp add: DecodeLastRune_def)

subsection \<open>String helpers of the Go standard library\<close>

text \<open>
  \<^verbatim>\<open>strings.Map(mapping, s)\<close> for a mapping that returns no negative rune: every rune
  of \<open>s\<close> is replaced by the encoding of its image. A byte of \<open>s\<close> that is not part of
  a well-formed encoding is read as \<^verbatim>\<open>RuneError\<close>.
\<close>

definition MapRunes :: "(nat \<Rightarrow> nat) \<Rightarrow> string \<Rightarrow> string" where
  "MapRunes mapping s =
     map char_of (concat (map (\<lambda>c. EncodeRune (mapping c)) (decodeRunes (map of_char s))))"

text \<open>
  \<^verbatim>\<open>strings.ToLower\<close>. A string of ASCII bytes only is lowered byte by byte: every
  byte in \<^verbatim>\<open>'A'..'Z'\<close> is shifted by \<^verbatim>\<open>'a' - 'A'\<close>. Any other string goes through
  \<^verbatim>\<open>strings.Map(unicode.ToLower, s)\<close>. The table \<^verbatim>\<open>unicode.ToLower\<close> belongs to Go's
  library and is the parameter \<open>lower\<close>.
\<close>

definition toLowerByte :: "char \<Rightarrow> char" where
  "toLowerByte c =
     (if (65::nat) \<le> of_char c \<and> of_char c \<le> (90::nat)
      then char_of (of_char c + (32::nat)) else c)"

definition isASCII :: "string \<Rightarrow> bool" where
  "isASCII s = list_all (\<lambda>c. (of_char c :: nat) < 0x80) s"

definition ToLower :: "(nat \<Rightarrow> nat) \<Rightarrow> string \<Rightarrow> string" where
  "ToLower lower s = (if isASCII s then map toLowerByte s else MapRunes lower s)"

text \<open>
  \<^verbatim>\<open>strings.TrimFunc(s, f)\<close>, that is \<^verbatim>\<open>TrimRightFunc(TrimLeftFunc(s, f), f)\<close>.
  \<open>TrimLeftFunc\<close> drops leading runes while \<open>f\<close> holds. \<open>lastIndexFunc f bs\<close> is
  \<^verbatim>\<open>lastIndexFunc(s, f, false)\<close>: the byte index at which the last rune that does not
  satisfy \<open>f\<close> begins, \<open>None\<close> for the result \<^verbatim>\<open>-1\<close>.
\<close>

function TrimLeftFunc :: "(nat \<Rightarrow> bool) \<Rightarrow> nat list \<Rightarrow> nat list" where
  "TrimLeftFunc f bs =
     (if bs = [] then []
      else if f (fst (DecodeRune bs)) then TrimLeftFunc f (drop (snd (DecodeRune bs)) bs)
      else bs)"
  by pat_completeness auto
termination
  by (relation "measure (\<lambda>(f, bs). length bs)")
     (auto simp: DecodeRune_width simp del: DecodeRune.simps)

declare TrimLeftFunc.simps [simp del]

function lastIndexFunc :: "(nat \<Rightarrow> bool) \<Rightarrow> nat list \<Rightarrow> nat option" where
  "lastIndexFunc f bs =
     (if bs = [] then None
      else if \<not> f (fst (DecodeLastRune bs)) then Some (length bs - snd (DecodeLastRune bs))
      else lastIndexFunc f (take (length bs - snd (DecodeLastRune bs)) bs))"
  by pat_completeness auto
termination
  by (relation "measure (\<lambda>(f, bs). length bs)") (auto simp: DecodeLastRune_width)

declare lastIndexFunc.simps [simp del]

definition TrimRightFunc :: "(nat \<Rightarrow> bool) \<Rightarrow> nat list \<Rightarrow> nat list" where
  "TrimRightFunc f bs =
     (case lastIndexFunc f bs of
        None \<Rightarrow> []
      | Some i \<Rightarrow>
          if 0x80 \<le> bs ! i then take (i + snd (DecodeRune (drop i bs))) bs
          else take (i + 1) bs)"

definition TrimFunc :: "(nat \<Rightarrow> bool) \<Rightarrow> nat list \<Rightarrow> nat list" where
  "TrimFunc f bs = TrimRightFunc f (TrimLeftFunc f bs)"

text \<open>
  \<^verbatim>\<open>strings.Split(s, sep)[0]\<close> for a non-empty separator: the part of \<open>s\<close> before the
  first occurrence of \<open>sep\<close>, or all of \<open>s\<close> when \<open>sep\<close> does not occur. (Split always
  returns at least one element for a non-empty separator, so the index cannot fail.)
\<close>

fun splitHead :: "string \<Rightarrow> string \<Rightarrow> string" where
  "splitHead sep [] = []"
| "splitHead sep (c # cs) = (if prefix sep (c # cs) then [] else c # splitHead sep cs)"

text \<open>\<^verbatim>\<open>strings.Contains(s, substr)\<close>.\<close>

fun Contains :: "string \<Rightarrow> string \<Rightarrow> bool" where
  "Contains [] substr = (substr = [])"
| "Contains (c # cs) substr = (prefix substr (c # cs) \<or> Contains cs substr)"

text \<open>\<^verbatim>\<open>strings.TrimPrefix(s, prefix)\<close>.\<close>

definition TrimPrefix :: "string \<Rightarrow> string \<Rightarrow> string" where
  "TrimPrefix s p = (if prefix p s then drop (length p) s else s)"

subsection \<open>parsePyDep\<close>

text \<open>The first argument is the table \<^verbatim>\<open>unicode.ToLower\<close> that \<^verbatim>\<open>strings.ToLower\<close> uses.\<close>

definition parsePyDep :: "(nat \<Rightarrow> nat) \<Rightarrow> string \<Rightarrow> string" where
  "parsePyDep lower dep =
     (let dep = ToLower lower dep;
          dep = splitHead '';'' dep;
          dep = splitHead '' '' dep;
          dep = splitHead ''['' dep;
          dep = splitHead ''=='' dep;
          dep = splitHead ''>'' dep;
          dep = splitHead ''<'' dep;
          dep = splitHead ''~='' dep
      in dep)"

text \<open>
  A string is \<open>canonical\<close> when none of the eight steps of \<open>parsePyDep\<close> changes it: it
  is in lower case and holds none of the seven separators.
\<close>

definition canonical :: "(nat \<Rightarrow> nat) \<Rightarrow> string \<Rightarrow> bool" where
  "canonical lower s \<longleftrightarrow>
     ToLower lower s = s \<and> \<not> Contains s '';'' \<and> \<not> Contains s '' '' \<and> \<not> Contains s ''['' \<and>
     \<not> Contains s ''=='' \<and> \<not> Contains s ''>'' \<and> \<not> Contains s ''<'' \<and> \<not> Contains s ''~=''"


subsection \<open>Paths\<close>

text \<open>
  \<^verbatim>\<open>filepath.Ext(path)\<close>: the suffix beginning at the last dot of the last
  slash-separated element of the path, empty when that element has no dot.
\<close>

definition Ext :: "string \<Rightarrow> string" where
  "Ext path =
     (let r = takeWhile (\<lambda>c. c \<noteq> CHR ''/'') (rev path)
      in if CHR ''.'' \<in> set r then rev (takeWhile (\<lambda>c. c \<noteq> CHR ''.'') r @ ''.'') else [])"

text \<open>
  \<^verbatim>\<open>filepath.Base(path)\<close> on a system whose separator is the slash: trailing slashes
  are dropped, then the last element is taken; \<^verbatim>\<open>"."\<close> for the empty path and
  \<^verbatim>\<open>"/"\<close> for a path of slashes only.
\<close>

definition Base :: "string \<Rightarrow> string" where
  "Base path =
     (if path = [] then ''.''
      else let p = rev (dropWhile (\<lambda>c. c = CHR ''/'') (rev path));
               e = rev (takeWhile (\<lambda>c. c \<noteq> CHR ''/'') (rev p))
           in if e = [] then ''/'' else e)"

subsection \<open>The version pattern\<close>

text \<open>
  The two regular expressions of \<open>extractPythonVersion\<close>, specialised by hand.
  \<^verbatim>\<open>Python ([0-9]+\.[0-9]+\.[0-9]+(?:[a-zA-Z]+[0-9]+)?)\<close>: every repetition is over a
  character class that excludes the character required next, so the greedy leftmost
  match of Go's \<^verbatim>\<open>regexp\<close> is the longest run at each repetition and no shorter run
  can succeed where the longest fails. \<open>digits1\<close> is \<^verbatim>\<open>[0-9]+\<close>, \<open>suffixOpt\<close> is
  \<^verbatim>\<open>(?:[a-zA-Z]+[0-9]+)?\<close>, \<open>matchHere\<close> matches the whole pattern at the start of a
  string and returns capture group 1, \<open>FindStringSubmatch\<close> finds the leftmost
  position where it matches.
\<close>

definition isDigit :: "char \<Rightarrow> bool" where
  "isDigit c \<longleftrightarrow> (48::nat) \<le> of_char c \<and> of_char c \<le> (57::nat)"

definition isLetter :: "char \<Rightarrow> bool" where
  "isLetter c \<longleftrightarrow>
     ((97::nat) \<le> of_char c \<and> of_char c \<le> (122::nat)) \<or>
     ((65::nat) \<le> of_char c \<and> of_char c \<le> (90::nat))"

definition digits1 :: "string \<Rightarrow> (string \<times> string) option" where
  "digits1 s =
     (if takeWhile isDigit s = [] then None
      else Some (takeWhile isDigit s, dropWhile isDigit s))"

definition suffixOpt :: "string \<Rightarrow> string" where
  "suffixOpt s =
     (let l = takeWhile isLetter s; d = takeWhile isDigit (dropWhile isLetter s)
      in if l \<noteq> [] \<and> d \<noteq> [] then l @ d else [])"

text \<open>\<open>dot s\<close>: the rest of \<open>s\<close> after a leading \<^verbatim>\<open>\.\<close>, if there is one.\<close>

fun dot :: "string \<Rightarrow> string option" where
  "dot [] = None"
| "dot (c # cs) = (if c = CHR ''.'' then Some cs else None)"

definition matchHere :: "string \<Rightarrow> string option" where
  "matchHere s =
     (if prefix ''Python '' s then
        (case digits1 (drop 7 s) of
           None \<Rightarrow> None
         | Some (major, r1) \<Rightarrow>
            (case dot r1 of
               None \<Rightarrow> None
             | Some r1' \<Rightarrow>
                (case digits1 r1' of
                   None \<Rightarrow> None
                 | Some (minor, r2) \<Rightarrow>
                    (case dot r2 of
                       None \<Rightarrow> None
                     | Some r2' \<Rightarrow>
                        (case digits1 r2' of
                           None \<Rightarrow> None
                         | Some (patch, r3) \<Rightarrow>
                             Some (major @ ''.'' @ minor @ ''.'' @ patch @ suffixOpt r3))))))
      else None)"

fun FindStringSubmatch :: "string \<Rightarrow> string option" where
  "FindStringSubmatch [] = matchHere []"
| "FindStringSubmatch (c # cs) =
     (case matchHere (c # cs) of
        Some version \<Rightarrow> Some version
      | None \<Rightarrow> FindStringSubmatch cs)"

text \<open>\<^verbatim>\<open>[^0-9.]\<close> matches somewhere in the string.\<close>

definition nonNumeric :: "string \<Rightarrow> bool" where
  "nonNumeric version = list_ex (\<lambda>c. \<not> isDigit c \<and> c \<noteq> CHR ''.'') version"

text \<open>
  What the pattern means, stated without the matcher: the text holds \<^verbatim>\<open>Python \<close>
  followed by three non-empty runs of digits separated by dots.
\<close>

definition allDigits :: "string \<Rightarrow> bool" where
  "allDigits s \<longleftrightarrow> s \<noteq> [] \<and> list_all isDigit s"

definition hasVersion :: "string \<Rightarrow> bool" where
  "hasVersion s \<longleftrightarrow>
     (\<exists>pre major minor patch post.
        s = pre @ ''Python '' @ major @ ''.'' @ minor @ ''.'' @ patch @ post \<and>
        allDigits major \<and> allDigits minor \<and> allDigits patch)"

subsection \<open>Data\<close>

datatype error = Error string | Wrap error string

text \<open>
  A file that is read whole and decoded (\<^verbatim>\<open>os.ReadFile\<close> followed by
  \<^verbatim>\<open>toml.Unmarshal\<close> or \<^verbatim>\<open>json.Unmarshal\<close>): reading fails, decoding fails, or the
  decoded value.
\<close>

datatype 'a doc = ReadFails error | ParseFails error | Parsed 'a

text \<open>
  A file that is read line by line (\<^verbatim>\<open>os.Open\<close> and a \<^verbatim>\<open>bufio.Scanner\<close>): opening
  fails, or the lines the scanner yields in order (a blank line of the file is an empty
  string among them) and the scanner's final error, if any.
\<close>

datatype textfile = OpenFails error | Scanned "string list" "error option"

text \<open>A decoded TOML value of type \<^verbatim>\<open>interface{}\<close>: a string or anything else.\<close>

datatype tomlval = TString string | TOther

text \<open>
  \<^verbatim>\<open>PyProjectToml\<close>, its nested structs flattened. A nil slice or map is \<open>None\<close>. A
  map is the list of its entries in the order in which \<^verbatim>\<open>range\<close> visits them (Go does
  not fix that order); its keys are distinct.
\<close>

record PyProjectToml =
  Project_Name :: string
  Project_Version :: string
  Project_Dependencies :: "string list option"
  Project_RequiresPython :: string
  Tool_Poetry_Name :: string
  Tool_Poetry_Version :: string
  Tool_Poetry_Dependencies :: "(string \<times> tomlval) list option"

record Pipfile =
  Packages :: "(string \<times> tomlval) list option"
  Requires_PythonVersion :: string

record PipfileLock =
  Meta_Requires_PythonVersion :: string

type_synonym PyDepStyle = string

definition Poetry :: PyDepStyle where "Poetry = ''poetry''"
definition Pipenv :: PyDepStyle where "Pipenv = ''pipenv''"
definition Pep621 :: PyDepStyle where "Pep621 = ''pep621''"
definition Pip :: PyDepStyle where "Pip = ''pip''"

type_synonym PyApp = string

definition FastAPI :: PyApp where "FastAPI = ''fastapi''"
definition Flask :: PyApp where "Flask = ''flask''"
definition Streamlit :: PyApp where "Streamlit = ''streamlit''"

definition supportedApps :: "PyApp list" where
  "supportedApps = [FastAPI, Flask, Streamlit]"

record PyCfg =
  pyVersion :: string
  appName :: string
  deps :: "string list"
  depStyle :: PyDepStyle

text \<open>A value of the template variables \<^verbatim>\<open>map[string]interface{}\<close>.\<close>

datatype varval = VStr string | VBool bool

text \<open>
  The \<^verbatim>\<open>Files\<close> of a descriptor are made by the template renderer, which is outside
  this file; the model keeps the call.
\<close>

datatype files = NoFiles | templates string | templatesExecute string "(string \<times> varval) list"

text \<open>
  \<^verbatim>\<open>SourceInfo\<close>, with the fields this file sets; a field a literal leaves out has
  Go's zero value.
\<close>

record SourceInfo =
  Files :: files
  Builder :: string
  Family :: string
  Port :: int
  Env :: "(string \<times> string) list"
  SkipDeploy :: bool
  DeployDocs :: string
  ObjectStorageDesired :: bool
  Runtime_Language :: string
  Runtime_Version :: string

text \<open>A line written by \<^verbatim>\<open>terminal.Info\<close> or \<^verbatim>\<open>terminal.Warn\<close>.\<close>

datatype msg = Info string | Warn string

text \<open>
  What a call of type \<^verbatim>\<open>(*SourceInfo, error)\<close> does: it panics, or it returns the
  pair (either may be nil).
\<close>

datatype ret = Panic | Return "SourceInfo option" "error option"

text \<open>One call of the walk function by \<^verbatim>\<open>filepath.Walk\<close>: the path, the error
  argument, and the file at that path as \<^verbatim>\<open>os.Open\<close> and the scanner see it.\<close>

datatype visit = Visit string "error option" textfile

text \<open>
  The surroundings of one run. \<open>checksPass dir names\<close> is
  \<^verbatim>\<open>checksPass(dir, fileExists(names...))\<close>, whose code is in another file of the
  package. \<open>tree\<close> lists the calls \<^verbatim>\<open>filepath.Walk(".")\<close> makes when the walk
  function never returns an error. \<open>python3\<close> and \<open>python\<close> are the combined output
  of the interpreter called with \<^verbatim>\<open>--version\<close>, \<open>None\<close> when the command fails.
  \<open>unicode_ToLower\<close> and \<open>unicode_IsDigit\<close> are the two functions of Go's
  \<^verbatim>\<open>unicode\<close> package that the code reaches, on runes.
\<close>

record world =
  checksPass :: "string \<Rightarrow> string list \<Rightarrow> bool"
  pyproject_toml :: "PyProjectToml doc"
  Pipfile_toml :: "Pipfile doc"
  Pipfile_lock :: "PipfileLock doc"
  textfiles :: "string \<Rightarrow> textfile"
  tree :: "visit list"
  python3 :: "string option"
  python :: "string option"
  unicode_ToLower :: "nat \<Rightarrow> nat"
  unicode_IsDigit :: "nat \<Rightarrow> bool"

text \<open>
  What the proofs below need of the table \<^verbatim>\<open>unicode.ToLower\<close>: it maps runes that can
  be encoded to such runes, lowering twice is lowering once, and on ASCII it is the
  shift of \<^verbatim>\<open>'A'..'Z'\<close>.
\<close>

definition lowerTable :: "(nat \<Rightarrow> nat) \<Rightarrow> bool" where
  "lowerTable lower \<longleftrightarrow>
     (\<forall>r. validRune r \<longrightarrow> validRune (lower r) \<and> lower (lower r) = lower r) \<and>
     (\<forall>r. r < 0x80 \<longrightarrow> lower r = (if 65 \<le> r \<and> r \<le> 90 then r + 32 else r))"

text \<open>
  A string is \<open>lowered\<close> when it is the encoding of runes that the table leaves as they
  are.
\<close>

definition lowered :: "(nat \<Rightarrow> nat) \<Rightarrow> string \<Rightarrow> bool" where
  "lowered lower s \<longleftrightarrow>
     (\<exists>vs. map of_char s = concat (map EncodeRune vs) \<and>
           (\<forall>v\<in>set vs. validRune v \<and> lower v = v))"

text \<open>
  A part of the two tables, for the examples: the ASCII and Latin-1 capital letters and
  the Kelvin sign (which lowers to the ASCII letter k); the ASCII and the Arabic-Indic
  digits.
\<close>

definition sampleLower :: "nat \<Rightarrow> nat" where
  "sampleLower r =
     (if 65 \<le> r \<and> r \<le> 90 then r + 32
      else if 0xC0 \<le> r \<and> r \<le> 0xDE \<and> r \<noteq> 0xD7 then r + 32
      else if r = 0x212A then 0x6B
      else r)"

definition sampleIsDigit :: "nat \<Rightarrow> bool" where
  "sampleIsDigit r \<longleftrightarrow> (48 \<le> r \<and> r \<le> 57) \<or> (0x660 \<le> r \<and> r \<le> 0x669)"

text \<open>
  A directory with nothing in it: no check passes, no file can be read, the walk visits
  nothing, and \<^verbatim>\<open>python3 --version\<close> prints the given banner. The examples below are
  updates of it. \<open>anyOf files\<close> is a check that passes when one of the names asked
  for is among \<open>files\<close>.
\<close>

definition bare :: "string \<Rightarrow> world" where
  "bare banner =
     \<lparr>checksPass = (\<lambda>dir names. False),
      pyproject_toml = ReadFails (Error ''no such file''),
      Pipfile_toml = ReadFails (Error ''no such file''),
      Pipfile_lock = ReadFails (Error ''no such file''),
      textfiles = (\<lambda>name. OpenFails (Error ''no such file'')),
      tree = [],
      python3 = Some banner,
      python = None,
      unicode_ToLower = sampleLower,
      unicode_IsDigit = sampleIsDigit\<rparr>"

definition anyOf :: "string list \<Rightarrow> string \<Rightarrow> string list \<Rightarrow> bool" where
  "anyOf files dir names = list_ex (\<lambda>n. n \<in> set files) names"

subsection \<open>findEntrypoint\<close>

text \<open>
  The scanner loop of the walk function: \<open>entrypoint\<close> is overwritten with the file
  (kept here by its name, which is all \<open>intoSource\<close> reads of it) at every line that
  holds both \<^verbatim>\<open>import\<close> and the dependency.
\<close>

fun scanLoop :: "string \<Rightarrow> string \<Rightarrow> string list \<Rightarrow> string option \<Rightarrow> string option" where
  "scanLoop dep path [] entrypoint = entrypoint"
| "scanLoop dep path (line # rest) entrypoint =
     scanLoop dep path rest
       (if Contains line ''import'' \<and> Contains line dep then Some path else entrypoint)"

text \<open>
  \<^verbatim>\<open>filepath.Walk\<close> with the walk function of \<open>findEntrypoint\<close>. The walk ends at the
  first call in which the walk function returns an error: a non-nil error argument, a
  failing \<^verbatim>\<open>os.Open\<close>, or a scanner error after the lines of a file. The error itself
  is dropped (the result of \<^verbatim>\<open>filepath.Walk\<close> is not read).
\<close>

fun walkFrom :: "string \<Rightarrow> visit list \<Rightarrow> string option \<Rightarrow> string option" where
  "walkFrom dep [] entrypoint = entrypoint"
| "walkFrom dep (Visit path err file # rest) entrypoint =
     (if err \<noteq> None then entrypoint
      else if Ext path = ''.py'' \<and> \<not> Contains path ''.venv'' then
        (case file of
           OpenFails e \<Rightarrow> entrypoint
         | Scanned lines serr \<Rightarrow>
             (if serr \<noteq> None then scanLoop dep path lines entrypoint
              else walkFrom dep rest (scanLoop dep path lines entrypoint)))
      else walkFrom dep rest entrypoint)"

definition findEntrypoint :: "world \<Rightarrow> string \<Rightarrow> string option" where
  "findEntrypoint w dep = walkFrom dep (tree w) None"

subsection \<open>readLines\<close>

definition readLines :: "world \<Rightarrow> string \<Rightarrow> error + string list" where
  "readLines w filename =
     (case textfiles w filename of
        OpenFails err \<Rightarrow> Inl err
      | Scanned lines serr \<Rightarrow>
          (case serr of Some err \<Rightarrow> Inl err | None \<Rightarrow> Inr lines))"

subsection \<open>intoSource\<close>

text \<open>
  The loop over \<^verbatim>\<open>cfg.deps\<close>: \<open>None\<close> when the loop returns from the function (a
  second supported name while \<open>app\<close> is set), otherwise the final \<open>app\<close>.
\<close>

fun findApp :: "string list \<Rightarrow> PyApp \<Rightarrow> PyApp option" where
  "findApp [] app = Some app"
| "findApp (dep # rest) app =
     (if dep \<in> set supportedApps \<and> app = [] then findApp rest dep
      else if dep \<in> set supportedApps \<and> app \<noteq> [] then None
      else findApp rest app)"

definition intoSource :: "world \<Rightarrow> PyCfg \<Rightarrow> ret \<times> msg list" where
  "intoSource w cfg =
     (let vars = AList.update ''appName'' (VStr (appName cfg))
                   (AList.update ''pyVersion'' (VStr (pyVersion cfg)) [])
      in case findApp (deps cfg) [] of
           None \<Rightarrow> (Return None None, [Warn ''Multiple supported Python frameworks found''])
         | Some app \<Rightarrow>
            (let vars = AList.update (depStyle cfg) (VBool True) vars;
                 objectStorage = (''boto3'' \<in> set (deps cfg) \<or> ''boto'' \<in> set (deps cfg))
             in if app = [] then
                  (Return None None, [Warn ''No supported Python frameworks found''])
                else if app = FastAPI then
                  (Return (Some \<lparr>Files = templatesExecute ''templates/python-docker''
                                          (AList.update ''fastapi'' (VBool True) vars),
                                  Builder = [], Family = ''FastAPI'', Port = 8000, Env = [],
                                  SkipDeploy = False, DeployDocs = [],
                                  ObjectStorageDesired = objectStorage,
                                  Runtime_Language = ''python'', Runtime_Version = []\<rparr>) None, [])
                else if app = Flask then
                  (Return (Some \<lparr>Files = templatesExecute ''templates/python-docker''
                                          (AList.update ''flask'' (VBool True) vars),
                                  Builder = [], Family = ''Flask'', Port = 8080, Env = [],
                                  SkipDeploy = False, DeployDocs = [],
                                  ObjectStorageDesired = objectStorage,
                                  Runtime_Language = ''python'', Runtime_Version = []\<rparr>) None, [])
                else if app = Streamlit then
                  (case findEntrypoint w ''streamlit'' of
                     None \<Rightarrow> (Return None None, [])
                   | Some name \<Rightarrow>
                      (Return (Some \<lparr>Files = templatesExecute ''templates/python-docker''
                                          (AList.update ''entrypoint'' (VStr name)
                                            (AList.update ''streamlit'' (VBool True) vars)),
                                  Builder = [], Family = ''Streamlit'', Port = 8501, Env = [],
                                  SkipDeploy = False, DeployDocs = [],
                                  ObjectStorageDesired = objectStorage,
                                  Runtime_Language = ''python'', Runtime_Version = []\<rparr>) None, []))
                else (Return None None, [])))"

subsection \<open>extractPythonVersion\<close>

text \<open>
  The text the pattern is applied to: the output of \<^verbatim>\<open>python3 --version\<close>, else that of
  \<^verbatim>\<open>python --version\<close>, else the fallback.
\<close>

definition pythonVersionOutput :: "world \<Rightarrow> string" where
  "pythonVersionOutput w =
     (case python3 w of
        Some out \<Rightarrow> out
      | None \<Rightarrow> (case python w of Some out \<Rightarrow> out | None \<Rightarrow> ''Python 3.12.0''))"

text \<open>
  The first tier: the version of \<^verbatim>\<open>Pipfile.lock\<close>, when the file is read, decodes and
  declares a non-empty version.
\<close>

definition lockedVersion :: "world \<Rightarrow> string option" where
  "lockedVersion w =
     (case Pipfile_lock w of
        Parsed pipfileLock \<Rightarrow>
          (if Meta_Requires_PythonVersion pipfileLock \<noteq> []
           then Some (Meta_Requires_PythonVersion pipfileLock) else None)
      | _ \<Rightarrow> None)"

definition extractPythonVersion :: "world \<Rightarrow> string \<times> bool \<times> error option" where
  "extractPythonVersion w =
     (case lockedVersion w of
        Some version \<Rightarrow> (version, True, None)
      | None \<Rightarrow>
         (case FindStringSubmatch (pythonVersionOutput w) of
            Some version \<Rightarrow> (version, nonNumeric version, None)
          | None \<Rightarrow> ([], False, Some (Error ''Could not find Python version''))))"

subsection \<open>The detectors\<close>

text \<open>\<open>say ms r\<close>: the lines \<open>ms\<close> were written before the call that gave \<open>r\<close>.\<close>

definition say :: "msg list \<Rightarrow> ret \<times> msg list \<Rightarrow> ret \<times> msg list" where
  "say ms r = (fst r, ms @ snd r)"

text \<open>
  \<^verbatim>\<open>strings.TrimFunc\<close> with the function of \<open>configPyProject\<close>: leading and trailing
  runes that are neither a digit (\<^verbatim>\<open>unicode.IsDigit\<close>, the first argument) nor a dot are
  dropped.
\<close>

definition trimVersion :: "(nat \<Rightarrow> bool) \<Rightarrow> string \<Rightarrow> string" where
  "trimVersion IsDigit s =
     map char_of (TrimFunc (\<lambda>r. \<not> IsDigit r \<and> r \<noteq> 46) (map of_char s))"

text \<open>
  In \<open>configPoetry\<close> the type assertion \<^verbatim>\<open>deps["python"].(string)\<close> has no second
  result: it panics when the key is missing (a nil interface) or its value is not a
  string.
\<close>

definition configPoetry :: "string \<Rightarrow> world \<Rightarrow> ret \<times> msg list" where
  "configPoetry sourceDir w =
     (if \<not> checksPass w sourceDir [''poetry.lock''] \<or> \<not> checksPass w sourceDir [''pyproject.toml'']
      then (Return None None, [])
      else say [Info ''Detected Poetry project'']
        (case pyproject_toml w of
           ReadFails err \<Rightarrow> (Return None (Some (Wrap err ''Error reading pyproject.toml'')), [])
         | ParseFails err \<Rightarrow> (Return None (Some (Wrap err ''Error parsing pyproject.toml'')), [])
         | Parsed pyProject \<Rightarrow>
            (case Tool_Poetry_Dependencies pyProject of
               None \<Rightarrow> (Return None (Some (Error ''No dependencies found in pyproject.toml'')), [])
             | Some ds \<Rightarrow>
                (let depList = map (\<lambda>(dep, v). parsePyDep (unicode_ToLower w) dep) ds
                 in case map_of ds ''python'' of
                      Some (TString version) \<Rightarrow>
                        intoSource w
                          \<lparr>pyVersion = parsePyDep (unicode_ToLower w) (TrimPrefix version ''^''),
                           appName = Tool_Poetry_Name pyProject,
                           deps = depList, depStyle = Poetry\<rparr>
                    | _ \<Rightarrow> (Panic, [])))))"

definition configPyProject :: "string \<Rightarrow> world \<Rightarrow> ret \<times> msg list" where
  "configPyProject sourceDir w =
     (if \<not> checksPass w sourceDir [''pyproject.toml'']
      then (Return None None, [])
      else say [Info ''Detected pyproject.toml'']
        (case pyproject_toml w of
           ReadFails err \<Rightarrow> (Return None (Some (Wrap err ''Error reading pyproject.toml'')), [])
         | ParseFails err \<Rightarrow> (Return None (Some (Wrap err ''Error parsing pyproject.toml'')), [])
         | Parsed pyProject \<Rightarrow>
            (case Project_Dependencies pyProject of
               None \<Rightarrow> (Return None (Some (Error ''No dependencies found in pyproject.toml'')), [])
             | Some ds \<Rightarrow>
                (let depList = map (\<lambda>dep. parsePyDep (unicode_ToLower w) (parsePyDep (unicode_ToLower w) dep)) ds
                 in if Project_RequiresPython pyProject = [] then
                      (case extractPythonVersion w of
                         (extracted, _, Some err) \<Rightarrow> (Return None (Some err), [])
                       | (extracted, _, None) \<Rightarrow>
                           intoSource w
                             \<lparr>pyVersion = extracted, appName = Project_Name pyProject,
                              deps = depList, depStyle = Pep621\<rparr>)
                    else
                      intoSource w
                        \<lparr>pyVersion = trimVersion (unicode_IsDigit w) (Project_RequiresPython pyProject),
                         appName = Project_Name pyProject,
                         deps = depList, depStyle = Pep621\<rparr>))))"

definition configPipfile :: "string \<Rightarrow> world \<Rightarrow> ret \<times> msg list" where
  "configPipfile sourceDir w =
     (if \<not> checksPass w sourceDir [''Pipfile'', ''Pipfile.lock'']
      then (Return None None, [])
      else say [Info ''Detected Pipfile'']
        (case Pipfile_toml w of
           ReadFails err \<Rightarrow> (Return None (Some (Wrap err ''Error reading Pipfile'')), [])
         | ParseFails err \<Rightarrow> (Return None (Some (Wrap err ''Error parsing Pipfile'')), [])
         | Parsed pipfile \<Rightarrow>
            (case Packages pipfile of
               None \<Rightarrow> (Return None (Some (Error ''No packages found in Pipfile'')), [])
             | Some ds \<Rightarrow>
                (let depList = map (\<lambda>(dep, v). parsePyDep (unicode_ToLower w) dep) ds
                 in case extractPythonVersion w of
                      (version, _, Some err) \<Rightarrow> (Return None (Some err), [])
                    | (version, _, None) \<Rightarrow>
                        intoSource w
                          \<lparr>pyVersion = version, appName = Base sourceDir,
                           deps = depList, depStyle = Pipenv\<rparr>))))"

text \<open>
  The part of \<open>configRequirements\<close> after a requirements file was read. A nil slice
  is the empty list: \<^verbatim>\<open>readLines\<close> starts from a nil slice and appends one element per
  line, so \<^verbatim>\<open>deps == nil\<close> holds exactly when the scanner yielded no line.
\<close>

definition requirementsFrom :: "string \<Rightarrow> world \<Rightarrow> string list \<Rightarrow> ret \<times> msg list" where
  "requirementsFrom sourceDir w ds =
     (if ds = [] then
        (Return None (Some (Error ''No dependencies found in requirements file'')), [])
      else
        (let depList = map (parsePyDep (unicode_ToLower w)) ds
         in case extractPythonVersion w of
              (version, _, Some err) \<Rightarrow> (Return None (Some err), [])
            | (version, _, None) \<Rightarrow>
                intoSource w
                  \<lparr>pyVersion = version, appName = Base sourceDir,
                   deps = depList, depStyle = Pip\<rparr>))"

definition configRequirements :: "string \<Rightarrow> world \<Rightarrow> ret \<times> msg list" where
  "configRequirements sourceDir w =
     (if checksPass w sourceDir [''requirements.txt''] then
        say [Info ''Detected requirements.txt'']
          (case readLines w ''requirements.txt'' of
             Inl err \<Rightarrow> (Return None (Some err), [])
           | Inr req_deps \<Rightarrow> requirementsFrom sourceDir w req_deps)
      else if checksPass w sourceDir [''requirements.in''] then
        say [Info ''Detected requirements.in'']
          (case readLines w ''requirements.in'' of
             Inl err \<Rightarrow> (Return None (Some err), [])
           | Inr req_deps \<Rightarrow> requirementsFrom sourceDir w req_deps)
      else (Return None None, []))"

subsection \<open>configurePython\<close>

text \<open>
  \<open>orElse r next\<close>: the test \<^verbatim>\<open>if src != nil || err != nil { return src, err }\<close>
  after a detector, with \<open>next\<close> the rest of the function. A panic ends the function.
\<close>

definition orElse :: "ret \<times> msg list \<Rightarrow> ret \<times> msg list \<Rightarrow> ret \<times> msg list" where
  "orElse r next =
     (case fst r of
        Panic \<Rightarrow> r
      | Return src err \<Rightarrow> (if src \<noteq> None \<or> err \<noteq> None then r else say (snd r) next))"

definition generic :: "string \<Rightarrow> SourceInfo" where
  "generic pythonVersion =
     \<lparr>Files = templates ''templates/python'',
      Builder = ''paketobuildpacks/builder:base'',
      Family = ''Python'', Port = 8080, Env = [(''PORT'', ''8080'')],
      SkipDeploy = True,
      DeployDocs = ''We have generated a simple Procfile for you. Modify it to fit your needs and run ''
                   @ [CHR 0x22] @ ''fly deploy'' @ [CHR 0x22] @ '' to deploy your application.'',
      ObjectStorageDesired = False,
      Runtime_Language = ''python'', Runtime_Version = pythonVersion\<rparr>"

definition configurePython :: "string \<Rightarrow> world \<Rightarrow> ret \<times> msg list" where
  "configurePython sourceDir w =
     orElse (configPoetry sourceDir w)
       (orElse (configPyProject sourceDir w)
         (orElse (configPipfile sourceDir w)
           (orElse (configRequirements sourceDir w)
             (if \<not> checksPass w sourceDir
                    [''requirements.txt'', ''environment.yml'', ''poetry.lock'', ''Pipfile'',
                     ''setup.py'', ''setup.cfg'']
              then (Return None None, [])
              else (case extractPythonVersion w of
                      (pythonVersion, _, Some err) \<Rightarrow> (Return None (Some err), [])
                    | (pythonVersion, _, None) \<Rightarrow>
                        (Return (Some (generic pythonVersion)) None, []))))))"

subsection \<open>Notions used to state the claims\<close>

text \<open>
  The walk in the words of the claims. \<open>pyFile\<close> is the test of the walk function
  on a path. \<open>stops v\<close>: the walk function returns an error at the call \<open>v\<close>, which
  ends the walk. \<open>visited\<close>: the calls that are really made, up to and including the
  first that stops. \<open>qualifies dep v\<close>: \<open>v\<close> is a Python file outside \<^verbatim>\<open>.venv\<close>
  with a line that holds both \<^verbatim>\<open>import\<close> and \<open>dep\<close>.
\<close>

fun vname :: "visit \<Rightarrow> string" where
  "vname (Visit path err file) = path"

definition pyFile :: "string \<Rightarrow> bool" where
  "pyFile path \<longleftrightarrow> Ext path = ''.py'' \<and> \<not> Contains path ''.venv''"

fun stops :: "visit \<Rightarrow> bool" where
  "stops (Visit path err file) =
     (err \<noteq> None \<or>
      (pyFile path \<and> (case file of OpenFails e \<Rightarrow> True | Scanned ls serr \<Rightarrow> serr \<noteq> None)))"

fun visited :: "visit list \<Rightarrow> visit list" where
  "visited [] = []"
| "visited (v # vs) = (if stops v then [v] else v # visited vs)"

fun qualifies :: "string \<Rightarrow> visit \<Rightarrow> bool" where
  "qualifies dep (Visit path err file) =
     (err = None \<and> pyFile path \<and>
      (case file of
         OpenFails e \<Rightarrow> False
       | Scanned ls serr \<Rightarrow> list_ex (\<lambda>line. Contains line ''import'' \<and> Contains line dep) ls))"

text \<open>
  The requirements file \<open>configRequirements\<close> reads: \<^verbatim>\<open>requirements.txt\<close> when its
  check passes, else \<^verbatim>\<open>requirements.in\<close> when that check passes, else none.
\<close>

definition requirementsFile :: "world \<Rightarrow> string \<Rightarrow> string option" where
  "requirementsFile w sourceDir =
     (if checksPass w sourceDir [''requirements.txt''] then Some ''requirements.txt''
      else if checksPass w sourceDir [''requirements.in''] then Some ''requirements.in''
      else None)"

text \<open>The marker files of the generic path, as \<open>configurePython\<close> lists them.\<close>

definition markers :: "string list" where
  "markers = [''requirements.txt'', ''environment.yml'', ''poetry.lock'', ''Pipfile'',
              ''setup.py'', ''setup.cfg'']"

subsection \<open>Example inputs\<close>

text \<open>A \<^verbatim>\<open>Pipfile.lock\<close> that declares the purely numeric version \<^verbatim>\<open>3.11\<close>.\<close>

definition lockWorld :: world where
  "lockWorld = (bare ''Python 3.9.1'')\<lparr>Pipfile_lock := Parsed \<lparr>Meta_Requires_PythonVersion = ''3.11''\<rparr>\<rparr>"

text \<open>A configuration with the given dependency list.\<close>

definition cfgOf :: "string list \<Rightarrow> PyCfg" where
  "cfgOf ds = \<lparr>pyVersion = ''3.11'', appName = ''app'', deps = ds, depStyle = Pip\<rparr>"

text \<open>
  A tree with two Python files that import streamlit (\<^verbatim>\<open>a.py\<close> is walked first,
  \<^verbatim>\<open>pages/c.py\<close> later), one inside \<^verbatim>\<open>.venv\<close> and a text file; and a tree with
  none.
\<close>

definition twoApps :: world where
  "twoApps = (bare ''Python 3.11.2'')
     \<lparr>tree := [Visit ''.'' None (Scanned [] (Some (Error ''is a directory''))),
               Visit ''a.py'' None (Scanned [''import streamlit as st''] None),
               Visit ''.venv/lib/streamlit/web.py'' None (Scanned [''import streamlit''] None),
               Visit ''notes.txt'' None (Scanned [''import streamlit''] None),
               Visit ''pages/c.py'' None (Scanned [''x = 1'', ''from streamlit import write''] None),
               Visit ''util.py'' None (Scanned [''import os''] None)]\<rparr>"

text \<open>
  A tree in which \<^verbatim>\<open>a.py\<close> and \<^verbatim>\<open>c.py\<close> import streamlit and \<^verbatim>\<open>b.py\<close>, walked
  between them, cannot be opened (a dangling symbolic link, say).
\<close>

definition brokenLink :: world where
  "brokenLink = (bare ''Python 3.11.2'')
     \<lparr>tree := [Visit ''.'' None (Scanned [] (Some (Error ''is a directory''))),
               Visit ''a.py'' None (Scanned [''import streamlit as st''] None),
               Visit ''b.py'' None (OpenFails (Error ''no such file or directory'')),
               Visit ''c.py'' None (Scanned [''import streamlit''] None)]\<rparr>"

definition noApp :: world where
  "noApp = (bare ''Python 3.11.2'')
     \<lparr>tree := [Visit ''.'' None (Scanned [] (Some (Error ''is a directory''))),
               Visit ''util.py'' None (Scanned [''import os''] None)]\<rparr>"

text \<open>
  A Poetry project: \<^verbatim>\<open>poetry.lock\<close> and \<^verbatim>\<open>pyproject.toml\<close> exist, and the latter has
  the given \<^verbatim>\<open>tool.poetry.dependencies\<close> table and no \<^verbatim>\<open>project.dependencies\<close>.
\<close>

definition poetryProject :: "(string \<times> tomlval) list \<Rightarrow> world" where
  "poetryProject ds = (bare ''Python 3.11.2'')
     \<lparr>checksPass := anyOf [''poetry.lock'', ''pyproject.toml''],
      pyproject_toml := Parsed
        \<lparr>Project_Name = [], Project_Version = [], Project_Dependencies = None,
         Project_RequiresPython = [], Tool_Poetry_Name = ''shop'',
         Tool_Poetry_Version = ''0.1.0'', Tool_Poetry_Dependencies = Some ds\<rparr>\<rparr>"

definition plainPoetry :: world where
  "plainPoetry = poetryProject [(''python'', TString ''^3.11''), (''requests'', TString ''^2.31'')]"

text \<open>A directory whose only file is a \<^verbatim>\<open>requirements.txt\<close> with the given lines.\<close>

definition requirementsProject :: "string list \<Rightarrow> world" where
  "requirementsProject ls = (bare ''Python 3.11.2'')
     \<lparr>checksPass := anyOf [''requirements.txt''],
      textfiles := (\<lambda>name. if name = ''requirements.txt'' then Scanned ls None
                             else OpenFails (Error ''no such file''))\<rparr>"

section \<open>Facts about the string helpers\<close>

lemma Contains_sublist: "Contains s sub = sublist sub s"
  by (induction s) (auto simp: sublist_Cons_right)

lemma splitHead_prefix: "prefix (splitHead sep s) s"
  by (induction s) auto

lemma splitHead_no_sep: "sep \<noteq> [] \<Longrightarrow> \<not> Contains (splitHead sep s) sep"
proof (induction s)
  case Nil
  then show ?case by simp
next
  case (Cons c cs)
  show ?case
  proof (cases "prefix sep (c # cs)")
    case True
    with Cons.prems show ?thesis by simp
  next
    case False
    have "\<not> prefix sep (c # splitHead sep cs)"
    proof
      assume "prefix sep (c # splitHead sep cs)"
      moreover have "prefix (c # splitHead sep cs) (c # cs)"
        by (simp add: splitHead_prefix)
      ultimately have "prefix sep (c # cs)"
        by (rule prefix_order.trans)
      with False show False by simp
    qed
    with False Cons show ?thesis by simp
  qed
qed

lemma splitHead_id: "\<not> Contains s sep \<Longrightarrow> splitHead sep s = s"
  by (induction s) auto

lemma Contains_prefix_mono: "prefix p s \<Longrightarrow> Contains p sub \<Longrightarrow> Contains s sub"
  unfolding Contains_sublist
  by (meson prefix_imp_sublist sublist_order.order.trans)

lemma splitHead_keeps_free: "\<not> Contains s sub \<Longrightarrow> \<not> Contains (splitHead sep s) sub"
  using Contains_prefix_mono [OF splitHead_prefix] by blast

lemma roundtrip1: "r < 0x80 \<Longrightarrow> DecodeRune (EncodeRune r @ rest) = (r, 1)"
  by (simp add: EncodeRune_def)

lemma roundtrip2:
  assumes "0x80 \<le> r" "r < 0x800"
  shows "DecodeRune (EncodeRune r @ rest) = (r, 2)"
proof -
  have a: "2 \<le> r div 64" "r div 64 \<le> 31" "r mod 64 < 64"
    using assms by auto
  have e: "EncodeRune r = [0xC0 + r div 64, 0x80 + r mod 64]"
    using assms by (simp add: EncodeRune_def)
  have "r div 64 * 64 + r mod 64 = r" by simp
  with a show ?thesis
    unfolding e by (simp add: cont_def)
qed

lemma div_4096: "(r::nat) div 4096 = (r div 64) div 64"
  using div_mult2_eq [of r 64 64] by simp

lemma div_64_split: "(r::nat) div 64 = (r div 4096) * 64 + (r div 64) mod 64"
  unfolding div_4096 by simp

lemma rune_split3: "(r::nat) = (r div 4096) * 4096 + ((r div 64) mod 64) * 64 + r mod 64"
proof -
  have "r = (r div 64) * 64 + r mod 64" by simp
  also have "(r div 64) * 64 = ((r div 4096) * 64 + (r div 64) mod 64) * 64"
    using div_64_split [of r] by simp
  also have "\<dots> = (r div 4096) * 4096 + ((r div 64) mod 64) * 64"
    by (simp add: add_mult_distrib)
  finally show ?thesis .
qed

lemma roundtrip3:
  assumes "0x800 \<le> r" "r < 0x10000" "validRune r"
  shows "DecodeRune (EncodeRune r @ rest) = (r, 3)"
proof -
  define a where "a = r div 4096"
  define b where "b = (r div 64) mod 64"
  define c where "c = r mod 64"
  have r: "r = a * 4096 + b * 64 + c"
    unfolding a_def b_def c_def by (rule rune_split3)
  have "r < 16 * 4096" using assms(2) by simp
  then have "a < 16" unfolding a_def by (rule less_mult_imp_div_less)
  moreover have "b < 64" "c < 64" unfolding b_def c_def by simp_all
  ultimately have bnd: "a < 16" "b < 64" "c < 64" .
  have e: "EncodeRune r = [0xE0 + a, 0x80 + b, 0x80 + c]"
    using assms by (simp add: EncodeRune_def a_def b_def c_def)
  have lo: "a = 0 \<Longrightarrow> 32 \<le> b" using assms(1) r bnd by linarith
  have nsur: "r < 0xD800 \<or> 0xDFFF < r" using assms(3) by (auto simp: validRune_def)
  have hi: "a = 13 \<Longrightarrow> b \<le> 31" using nsur r bnd by linarith
  have s: "second (0xE0 + a) (0x80 + b)"
    using lo hi bnd by (simp add: second_def cont_def)
  have d: "DecodeRune ((0xE0 + a) # (0x80 + b) # (0x80 + c) # rest) =
      (a * 4096 + b * 64 + c, 3)"
    using s bnd by (simp add: cont_def)
  show ?thesis
    unfolding e using d r by simp
qed

lemma div_4096_split: "(r::nat) div 4096 = (r div 262144) * 64 + (r div 4096) mod 64"
proof -
  have "r div 262144 = (r div 4096) div 64"
    using div_mult2_eq [of r 4096 64] by simp
  then show ?thesis by simp
qed

lemma rune_split4:
  "(r::nat) = (r div 262144) * 262144 + ((r div 4096) mod 64) * 4096 +
     ((r div 64) mod 64) * 64 + r mod 64"
proof -
  have "(r div 4096) * 4096 = ((r div 262144) * 64 + (r div 4096) mod 64) * 4096"
    using div_4096_split [of r] by simp
  also have "\<dots> = (r div 262144) * 262144 + ((r div 4096) mod 64) * 4096"
    by (simp add: add_mult_distrib)
  finally show ?thesis
    using rune_split3 [of r] by simp
qed

lemma roundtrip4:
  assumes "0x10000 \<le> r" "validRune r"
  shows "DecodeRune (EncodeRune r @ rest) = (r, 4)"
proof -
  define a where "a = r div 262144"
  define b where "b = (r div 4096) mod 64"
  define c where "c = (r div 64) mod 64"
  define d where "d = r mod 64"
  have r: "r = a * 262144 + b * 4096 + c * 64 + d"
    unfolding a_def b_def c_def d_def by (rule rune_split4)
  have le: "r \<le> 0x10FFFF"
    using assms by (auto simp: validRune_def)
  then have "r < 5 * 262144" by simp
  then have "a < 5" unfolding a_def by (rule less_mult_imp_div_less)
  moreover have "b < 64" "c < 64" "d < 64" unfolding b_def c_def d_def by simp_all
  ultimately have bnd: "a < 5" "b < 64" "c < 64" "d < 64" .
  have e: "EncodeRune r = [0xF0 + a, 0x80 + b, 0x80 + c, 0x80 + d]"
    using assms by (simp add: EncodeRune_def a_def b_def c_def d_def)
  have lo: "a = 0 \<Longrightarrow> 16 \<le> b" using assms(1) r bnd by linarith
  have hi: "a = 4 \<Longrightarrow> b \<le> 15" using le r bnd by linarith
  have s: "second (0xF0 + a) (0x80 + b)"
    using lo hi bnd by (simp add: second_def cont_def)
  have dd: "DecodeRune ((0xF0 + a) # (0x80 + b) # (0x80 + c) # (0x80 + d) # rest) =
      (a * 262144 + b * 4096 + c * 64 + d, 4)"
    using s bnd by (simp add: cont_def)
  show ?thesis
    unfolding e using dd r by simp
qed

lemma EncodeRune_length:
  "length (EncodeRune r) =
     (if r < 0x80 then 1 else if r < 0x800 then 2
      else if \<not> validRune r \<or> r < 0x10000 then 3 else 4)"
  by (simp add: EncodeRune_def)

lemma roundtrip:
  assumes v: "validRune r"
  shows "DecodeRune (EncodeRune r @ rest) = (r, length (EncodeRune r))"
proof -
  consider "r < 0x80" | "0x80 \<le> r" "r < 0x800" | "0x800 \<le> r" "r < 0x10000" | "0x10000 \<le> r"
    by linarith
  then show ?thesis
  proof cases
    case 1
    then show ?thesis by (simp add: roundtrip1 EncodeRune_length)
  next
    case 2
    then show ?thesis by (simp add: roundtrip2 EncodeRune_length)
  next
    case 3
    with v show ?thesis by (simp add: roundtrip3 EncodeRune_length)
  next
    case 4
    with v show ?thesis by (simp add: roundtrip4 EncodeRune_length)
  qed
qed

lemma EncodeRune_nonempty: "EncodeRune r \<noteq> []"
  by (simp add: EncodeRune_def)

lemma decodeRunes_encoded:
  "\<forall>r\<in>set rs. validRune r \<Longrightarrow> decodeRunes (concat (map EncodeRune rs)) = rs"
proof (induction rs)
  case Nil
  then show ?case by (simp add: decodeRunes.simps)
next
  case (Cons r rs)
  then have v: "validRune r" by simp
  have "decodeRunes (EncodeRune r @ concat (map EncodeRune rs)) =
      r # decodeRunes (concat (map EncodeRune rs))"
    by (subst decodeRunes.simps) (simp add: roundtrip [OF v] EncodeRune_nonempty)
  with Cons show ?case by simp
qed

lemma valid_RuneError: "validRune RuneError"
  by (simp add: validRune_def RuneError_def)

lemma valid1: "b0 < 0x80 \<Longrightarrow> validRune b0"
  by (simp add: validRune_def)

lemma valid2:
  assumes "b0 \<le> 0xDF" "cont b1"
  shows "validRune ((b0 - 0xC0) * 64 + (b1 - 0x80))"
proof -
  have "b0 - 0xC0 \<le> 31" "b1 - 0x80 \<le> 63"
    using assms by (auto simp: cont_def)
  then have "(b0 - 0xC0) * 64 + (b1 - 0x80) < 0xD800" by linarith
  then show ?thesis by (simp add: validRune_def)
qed

lemma valid3:
  assumes "0xE0 \<le> b0" "b0 \<le> 0xEF" "second b0 b1" "cont b2"
  shows "validRune ((b0 - 0xE0) * 4096 + (b1 - 0x80) * 64 + (b2 - 0x80))"
proof -
  have c: "b2 - 0x80 \<le> 63" using assms(4) by (auto simp: cont_def)
  have b: "b1 - 0x80 \<le> 63" using assms(3) by (auto simp: second_def cont_def split: if_splits)
  consider "b0 \<le> 0xEC" | "b0 = 0xED" | "0xEE \<le> b0" by linarith
  then show ?thesis
  proof cases
    case 1
    then have "b0 - 0xE0 \<le> 12" by simp
    with b c have "(b0 - 0xE0) * 4096 + (b1 - 0x80) * 64 + (b2 - 0x80) < 0xD800" by linarith
    then show ?thesis by (simp add: validRune_def)
  next
    case 2
    then have "b1 - 0x80 \<le> 31" using assms(3) by (auto simp: second_def)
    with 2 c have "(b0 - 0xE0) * 4096 + (b1 - 0x80) * 64 + (b2 - 0x80) < 0xD800" by simp
    then show ?thesis by (simp add: validRune_def)
  next
    case 3
    then have "14 \<le> b0 - 0xE0" "b0 - 0xE0 \<le> 15" using assms(2) by simp_all
    with b c have "0xDFFF < (b0 - 0xE0) * 4096 + (b1 - 0x80) * 64 + (b2 - 0x80)"
      "(b0 - 0xE0) * 4096 + (b1 - 0x80) * 64 + (b2 - 0x80) \<le> 0x10FFFF" by linarith+
    then show ?thesis by (simp add: validRune_def)
  qed
qed

lemma valid4:
  assumes "0xF0 \<le> b0" "b0 \<le> 0xF4" "second b0 b1" "cont b2" "cont b3"
  shows "validRune ((b0 - 0xF0) * 262144 + (b1 - 0x80) * 4096 + (b2 - 0x80) * 64 + (b3 - 0x80))"
proof -
  have c: "b2 - 0x80 \<le> 63" "b3 - 0x80 \<le> 63" using assms(4,5) by (auto simp: cont_def)
  have b: "b1 - 0x80 \<le> 63" using assms(3) by (auto simp: second_def cont_def split: if_splits)
  consider "b0 = 0xF0" | "0xF1 \<le> b0" "b0 \<le> 0xF3" | "b0 = 0xF4" using assms(1,2) by linarith
  then show ?thesis
  proof cases
    case 1
    then have "16 \<le> b1 - 0x80" using assms(3) by (auto simp: second_def)
    with 1 b c have "0xDFFF < (b0 - 0xF0) * 262144 + (b1 - 0x80) * 4096 + (b2 - 0x80) * 64 + (b3 - 0x80)"
      "(b0 - 0xF0) * 262144 + (b1 - 0x80) * 4096 + (b2 - 0x80) * 64 + (b3 - 0x80) \<le> 0x10FFFF"
      by simp_all
    then show ?thesis by (simp add: validRune_def)
  next
    case 2
    then have "1 \<le> b0 - 0xF0" "b0 - 0xF0 \<le> 3" by simp_all
    with b c have "0xDFFF < (b0 - 0xF0) * 262144 + (b1 - 0x80) * 4096 + (b2 - 0x80) * 64 + (b3 - 0x80)"
      "(b0 - 0xF0) * 262144 + (b1 - 0x80) * 4096 + (b2 - 0x80) * 64 + (b3 - 0x80) \<le> 0x10FFFF"
      by linarith+
    then show ?thesis by (simp add: validRune_def)
  next
    case 3
    then have "b1 - 0x80 \<le> 15" using assms(3) by (auto simp: second_def)
    with 3 c have "0xDFFF < (b0 - 0xF0) * 262144 + (b1 - 0x80) * 4096 + (b2 - 0x80) * 64 + (b3 - 0x80)"
      "(b0 - 0xF0) * 262144 + (b1 - 0x80) * 4096 + (b2 - 0x80) * 64 + (b3 - 0x80) \<le> 0x10FFFF"
      by simp_all
    then show ?thesis by (simp add: validRune_def)
  qed
qed

lemma DecodeRune_valid: "validRune (fst (DecodeRune bs))"
proof (cases bs)
  case Nil
  then show ?thesis by (simp add: valid_RuneError)
next
  case (Cons b0 rest)
  show ?thesis
    unfolding Cons
    by (simp add: valid_RuneError valid1 valid2 valid3 valid4 split: list.splits)
qed

lemma decodeRunes_valid: "r \<in> set (decodeRunes bs) \<Longrightarrow> validRune r"
proof (induction bs rule: decodeRunes.induct)
  case (1 bs)
  show ?case
  proof (cases "bs = []")
    case True
    with 1(2) show ?thesis by (simp add: decodeRunes.simps)
  next
    case False
    from 1(2) have "r = fst (DecodeRune bs) \<or> r \<in> set (decodeRunes (drop (snd (DecodeRune bs)) bs))"
      by (subst (asm) decodeRunes.simps) (simp add: False)
    with 1(1) [OF False] show ?thesis
      using DecodeRune_valid by blast
  qed
qed

lemma EncodeRune_bytes: "b \<in> set (EncodeRune r) \<Longrightarrow> b < 256"
proof -
  assume b: "b \<in> set (EncodeRune r)"
  have m: "x mod 64 < 64" for x :: nat by simp
  have a: "r < 0x800 \<Longrightarrow> r div 64 < 32"
    by (rule less_mult_imp_div_less) simp
  have c: "r < 0x10000 \<Longrightarrow> r div 4096 < 16"
    by (rule less_mult_imp_div_less) simp
  have d: "validRune r \<Longrightarrow> r div 262144 < 5"
    by (rule less_mult_imp_div_less) (auto simp: validRune_def)
  from b show ?thesis
    unfolding EncodeRune_def
    using a c d m [of r] m [of "r div 64"] m [of "r div 4096"]
    by (auto split: if_splits)
qed

lemma EncodeRune_high: "0x80 \<le> r \<Longrightarrow> b \<in> set (EncodeRune r) \<Longrightarrow> 0x80 \<le> b"
  by (auto simp: EncodeRune_def split: if_splits)

lemma EncodeRune_low: "r < 0x80 \<Longrightarrow> EncodeRune r = [r]"
  by (simp add: EncodeRune_def)

lemma chars_bytes: "\<forall>b\<in>set bs. b < (256::nat) \<Longrightarrow> map of_char (map char_of bs :: string) = bs"
  by (induction bs) auto

lemma bytes_chars: "map char_of (map of_char s :: nat list) = (s :: string)"
  by (induction s) auto

lemma encoded_bytes: "b \<in> set (concat (map (\<lambda>c. EncodeRune (f c)) rs)) \<Longrightarrow> b < 256"
  by (auto dest: EncodeRune_bytes)

lemma encoded_prefix:
  "concat (map EncodeRune vs) = p @ c # rest \<Longrightarrow> c < 0x80 \<Longrightarrow>
   \<exists>vs1 vs2. vs = vs1 @ vs2 \<and> p = concat (map EncodeRune vs1)"
proof (induction vs arbitrary: p)
  case Nil
  then show ?case by simp
next
  case (Cons v vs)
  from Cons.prems(1) have "EncodeRune v @ concat (map EncodeRune vs) = p @ c # rest"
    by simp
  then obtain us where
    "(EncodeRune v = p @ us \<and> us @ concat (map EncodeRune vs) = c # rest) \<or>
     (EncodeRune v @ us = p \<and> concat (map EncodeRune vs) = us @ c # rest)"
    by (auto simp: append_eq_append_conv2)
  then show ?case
  proof
    assume a: "EncodeRune v = p @ us \<and> us @ concat (map EncodeRune vs) = c # rest"
    show ?thesis
    proof (cases us)
      case Nil
      with a have "p = concat (map EncodeRune [v])" by simp
      then show ?thesis by (metis append_Cons append_Nil)
    next
      case (Cons u us')
      with a have "c \<in> set (EncodeRune v)" by auto
      with Cons.prems(2) have "v < 0x80"
        using EncodeRune_high [of v c] by force
      with a Cons have "p = []" by (cases p) (auto simp: EncodeRune_low)
      then show ?thesis by (metis append_Nil concat.simps(1) list.simps(8))
    qed
  next
    assume a: "EncodeRune v @ us = p \<and> concat (map EncodeRune vs) = us @ c # rest"
    with Cons.IH [of us] Cons.prems(2) obtain vs1 vs2 where
      "vs = vs1 @ vs2" "us = concat (map EncodeRune vs1)" by blast
    with a have "v # vs = (v # vs1) @ vs2 \<and> p = concat (map EncodeRune (v # vs1))" by auto
    then show ?thesis by blast
  qed
qed

lemma toLowerByte_ascii: "(of_char c :: nat) < 0x80 \<Longrightarrow> (of_char (toLowerByte c) :: nat) < 0x80"
  by (auto simp: toLowerByte_def)

lemma toLowerByte_not_upper:
  "\<not> ((65::nat) \<le> of_char (toLowerByte c) \<and> of_char (toLowerByte c) \<le> (90::nat))"
  by (auto simp: toLowerByte_def)

lemma toLowerByte_fixed:
  "\<not> ((65::nat) \<le> of_char c \<and> of_char c \<le> (90::nat)) \<Longrightarrow> toLowerByte c = c"
  unfolding toLowerByte_def by (auto simp del: of_char_eq_iff)

lemma ascii_encoded:
  "\<forall>v\<in>set vs. v < 0x80 \<Longrightarrow> concat (map EncodeRune vs) = vs"
  by (induction vs) (auto simp: EncodeRune_low)

lemma encoded_ascii:
  "\<forall>b\<in>set (concat (map EncodeRune vs)). b < 0x80 \<Longrightarrow> \<forall>v\<in>set vs. v < 0x80"
proof (rule ballI, rule ccontr)
  fix v assume a: "\<forall>b\<in>set (concat (map EncodeRune vs)). b < 0x80" and v: "v \<in> set vs"
    and n: "\<not> v < 0x80"
  obtain b where b: "b \<in> set (EncodeRune v)"
    using EncodeRune_nonempty [of v] by (cases "EncodeRune v") auto
  with n have "0x80 \<le> b" using EncodeRune_high [of v b] by simp
  moreover from b v a have "b < 0x80" by auto
  ultimately show False by simp
qed

lemma ToLower_lowered:
  assumes "lowerTable lower"
  shows "lowered lower (ToLower lower x)"
proof (cases "isASCII x")
  case True
  define vs :: "nat list" where "vs = map of_char (map toLowerByte x)"
  have lt: "\<forall>v\<in>set vs. v < 0x80"
    using True by (auto simp: vs_def isASCII_def list_all_iff toLowerByte_ascii)
  have p: "\<forall>v\<in>set vs. validRune v \<and> lower v = v"
  proof
    fix v assume v: "v \<in> set vs"
    with lt have l: "v < 0x80" by blast
    from v have "\<not> (65 \<le> v \<and> v \<le> 90)"
      using toLowerByte_not_upper by (auto simp: vs_def)
    with l assms show "validRune v \<and> lower v = v"
      by (simp add: lowerTable_def valid1)
  qed
  have "map of_char (map toLowerByte x) = concat (map EncodeRune vs)"
    using ascii_encoded [OF lt] by (simp add: vs_def)
  with p have "lowered lower (map toLowerByte x)"
    unfolding lowered_def by blast
  with True show ?thesis by (simp add: ToLower_def)
next
  case False
  define vs where "vs = map lower (decodeRunes (map of_char x))"
  have p: "\<forall>v\<in>set vs. validRune v \<and> lower v = v"
    using assms decodeRunes_valid by (auto simp: vs_def lowerTable_def)
  have c: "concat (map (\<lambda>c. EncodeRune (lower c)) (decodeRunes (map of_char x))) =
      concat (map EncodeRune vs)"
    by (simp add: vs_def comp_def)
  have "\<forall>b\<in>set (concat (map EncodeRune vs)). b < 256"
    by (auto dest: EncodeRune_bytes)
  then have "map of_char (MapRunes lower x) = concat (map EncodeRune vs)"
    unfolding MapRunes_def c by (rule chars_bytes)
  with p have "lowered lower (MapRunes lower x)"
    unfolding lowered_def by blast
  with False show ?thesis by (simp add: ToLower_def)
qed

lemma lowered_prefix:
  assumes "lowered lower (p @ c # rest)" and "(of_char c :: nat) < 0x80"
  shows "lowered lower p"
proof -
  from assms(1) obtain vs where
    e: "map of_char (p @ c # rest) = concat (map EncodeRune vs)"
    and v: "\<forall>v\<in>set vs. validRune v \<and> lower v = v"
    unfolding lowered_def by blast
  from e have "concat (map EncodeRune vs) = map of_char p @ of_char c # map of_char rest"
    by simp
  from encoded_prefix [OF this assms(2)] obtain vs1 vs2 where
    "vs = vs1 @ vs2" "map of_char p = concat (map EncodeRune vs1)" by blast
  with v show ?thesis
    unfolding lowered_def by auto
qed

lemma lowered_fixed:
  assumes "lowerTable lower" and "lowered lower s"
  shows "ToLower lower s = s"
proof -
  from assms(2) obtain vs where
    e: "map of_char s = concat (map EncodeRune vs)"
    and v: "\<forall>v\<in>set vs. validRune v \<and> lower v = v"
    unfolding lowered_def by blast
  show ?thesis
  proof (cases "isASCII s")
    case True
    then have "\<forall>b\<in>set (concat (map EncodeRune vs)). b < 0x80"
      unfolding e [symmetric] by (auto simp: isASCII_def list_all_iff)
    then have lt: "\<forall>v\<in>set vs. v < 0x80" by (rule encoded_ascii)
    with e have vs: "map of_char s = vs" by (simp add: ascii_encoded)
    have "toLowerByte c = c" if "c \<in> set s" for c
    proof -
      from that vs have m: "of_char c \<in> set vs" by auto
      with lt v assms(1) have "(if 65 \<le> (of_char c :: nat) \<and> (of_char c :: nat) \<le> 90
          then of_char c + 32 else of_char c) = (of_char c :: nat)"
        unfolding lowerTable_def by metis
      then have "\<not> ((65::nat) \<le> of_char c \<and> of_char c \<le> (90::nat))"
        by (auto split: if_splits)
      then show ?thesis by (rule toLowerByte_fixed)
    qed
    then have "map toLowerByte s = s" by (simp add: map_idI)
    with True show ?thesis by (simp add: ToLower_def)
  next
    case False
    have "decodeRunes (map of_char s) = vs"
      unfolding e using v by (simp add: decodeRunes_encoded)
    moreover have "map (\<lambda>c. EncodeRune (lower c)) vs = map EncodeRune vs"
      using v by (intro map_cong) simp_all
    ultimately have "MapRunes lower s = map char_of (map of_char s :: nat list)"
      unfolding MapRunes_def e by (simp only:)
    with False show ?thesis by (simp add: ToLower_def bytes_chars)
  qed
qed

lemma lowerTable_sample: "lowerTable sampleLower"
  unfolding lowerTable_def sampleLower_def validRune_def by auto

lemma splitHead_cut: "splitHead sep s = s \<or> (\<exists>rest. s = splitHead sep s @ sep @ rest)"
proof (induction s)
  case Nil
  then show ?case by simp
next
  case (Cons c cs)
  show ?case
  proof (cases "prefix sep (c # cs)")
    case True
    then show ?thesis by (auto simp: prefix_def)
  next
    case False
    with Cons show ?thesis by auto
  qed
qed

lemma lowered_splitHead:
  assumes "lowered lower s" and "(of_char c :: nat) < 0x80"
  shows "lowered lower (splitHead (c # cs) s)"
proof -
  from splitHead_cut [of "c # cs" s] show ?thesis
  proof
    assume "splitHead (c # cs) s = s"
    with assms(1) show ?thesis by simp
  next
    assume "\<exists>rest. s = splitHead (c # cs) s @ (c # cs) @ rest"
    then obtain rest where "s = splitHead (c # cs) s @ c # (cs @ rest)" by auto
    with assms(1) have "lowered lower (splitHead (c # cs) s @ c # (cs @ rest))" by simp
    then show ?thesis using assms(2) by (rule lowered_prefix)
  qed
qed

lemma parsePyDep_lowered:
  assumes "lowerTable lower"
  shows "lowered lower (parsePyDep lower dep)"
  unfolding parsePyDep_def Let_def
  by (intro lowered_splitHead ToLower_lowered assms) simp_all

lemma parsePyDep_canonical:
  assumes "lowerTable lower"
  shows "canonical lower (parsePyDep lower dep)"
proof -
  have "ToLower lower (parsePyDep lower dep) = parsePyDep lower dep"
    using assms parsePyDep_lowered [OF assms] by (rule lowered_fixed)
  moreover have "\<not> Contains (parsePyDep lower dep) '';''" "\<not> Contains (parsePyDep lower dep) '' ''"
    "\<not> Contains (parsePyDep lower dep) ''[''" "\<not> Contains (parsePyDep lower dep) ''==''"
    "\<not> Contains (parsePyDep lower dep) ''>''" "\<not> Contains (parsePyDep lower dep) ''<''"
    "\<not> Contains (parsePyDep lower dep) ''~=''"
    unfolding parsePyDep_def Let_def
    by (intro splitHead_keeps_free splitHead_no_sep; simp)+
  ultimately show ?thesis
    unfolding canonical_def by simp
qed

lemma canonical_fixed: "canonical lower s \<Longrightarrow> parsePyDep lower s = s"
  unfolding canonical_def parsePyDep_def Let_def
  by (simp add: splitHead_id)

lemma parsePyDep_prefix: "prefix (parsePyDep lower dep) (ToLower lower dep)"
  unfolding parsePyDep_def Let_def
  by (meson splitHead_prefix prefix_order.trans)

section \<open>Facts about the version pattern, the classifier and the walk\<close>

lemma digits1_Some: "digits1 s = Some (d, r) \<Longrightarrow> s = d @ r \<and> allDigits d"
  by (auto simp: digits1_def allDigits_def list_all_iff split: if_splits dest: set_takeWhileD)

lemma dot_Some: "dot s = Some r \<Longrightarrow> s = CHR ''.'' # r"
  by (cases s) (auto split: if_splits)

lemma matchHere_sound:
  assumes "matchHere s = Some v"
  shows "\<exists>major minor patch post.
           s = ''Python '' @ major @ ''.'' @ minor @ ''.'' @ patch @ post \<and>
           allDigits major \<and> allDigits minor \<and> allDigits patch"
proof -
  from assms have p: "prefix ''Python '' s"
    by (auto simp: matchHere_def split: if_splits)
  then have s: "s = ''Python '' @ drop 7 s"
    by (auto simp: prefix_def)
  from assms p obtain major r1 where d1: "digits1 (drop 7 s) = Some (major, r1)"
    by (auto simp: matchHere_def split: option.splits)
  from assms p d1 obtain r1' where t1: "dot r1 = Some r1'"
    by (auto simp: matchHere_def split: option.splits)
  from assms p d1 t1 obtain minor r2 where d2: "digits1 r1' = Some (minor, r2)"
    by (auto simp: matchHere_def split: option.splits)
  from assms p d1 t1 d2 obtain r2' where t2: "dot r2 = Some r2'"
    by (auto simp: matchHere_def split: option.splits)
  from assms p d1 t1 d2 t2 obtain patch r3 where d3: "digits1 r2' = Some (patch, r3)"
    by (auto simp: matchHere_def split: option.splits)
  have "drop 7 s = major @ ''.'' @ minor @ ''.'' @ patch @ r3"
    using digits1_Some [OF d1] digits1_Some [OF d2] digits1_Some [OF d3]
      dot_Some [OF t1] dot_Some [OF t2] by simp
  with s have "s = ''Python '' @ major @ ''.'' @ minor @ ''.'' @ patch @ r3"
    by metis
  with digits1_Some [OF d1] digits1_Some [OF d2] digits1_Some [OF d3] show ?thesis
    by blast
qed

lemma hasVersion_Cons: "hasVersion s \<Longrightarrow> hasVersion (c # s)"
  unfolding hasVersion_def
  by (metis append_Cons)

lemma hasVersion_here:
  "s = ''Python '' @ major @ ''.'' @ minor @ ''.'' @ patch @ post \<Longrightarrow>
   allDigits major \<Longrightarrow> allDigits minor \<Longrightarrow> allDigits patch \<Longrightarrow> hasVersion s"
  unfolding hasVersion_def by (metis append_Nil)

lemma FindStringSubmatch_sound: "FindStringSubmatch s = Some v \<Longrightarrow> hasVersion s"
proof (induction s)
  case Nil
  then show ?case by (simp add: matchHere_def)
next
  case (Cons c cs)
  show ?case
  proof (cases "matchHere (c # cs)")
    case None
    with Cons show ?thesis by (simp add: hasVersion_Cons)
  next
    case (Some u)
    from matchHere_sound [OF Some] show ?thesis
      using hasVersion_here by blast
  qed
qed

lemma not_isDigit_dot: "\<not> isDigit CHR ''.''"
  by (simp add: isDigit_def)

lemma digits1_run:
  "allDigits d \<Longrightarrow> digits1 (d @ CHR ''.'' # r) = Some (d, CHR ''.'' # r)"
  by (simp add: digits1_def allDigits_def list_all_iff takeWhile_tail dropWhile_append3 not_isDigit_dot)

lemma digits1_last: "allDigits d \<Longrightarrow> digits1 (d @ r) \<noteq> None"
  by (cases d) (auto simp: digits1_def allDigits_def)

lemma matchHere_complete:
  assumes "allDigits major" "allDigits minor" "allDigits patch"
  shows "matchHere (''Python '' @ major @ ''.'' @ minor @ ''.'' @ patch @ post) \<noteq> None"
proof -
  obtain p r3 where d3: "digits1 (patch @ post) = Some (p, r3)"
    using digits1_last [OF assms(3), of post] by (cases "digits1 (patch @ post)") auto
  show ?thesis
    using digits1_run [OF assms(1)] digits1_run [OF assms(2)] d3
    by (simp add: matchHere_def)
qed

lemma FindStringSubmatch_complete_aux:
  "allDigits major \<Longrightarrow> allDigits minor \<Longrightarrow> allDigits patch \<Longrightarrow>
   FindStringSubmatch (pre @ ''Python '' @ major @ ''.'' @ minor @ ''.'' @ patch @ post) \<noteq> None"
proof (induction pre)
  case Nil
  from matchHere_complete [OF Nil, of post] show ?case
    by (auto split: option.splits)
next
  case (Cons c pre)
  then show ?case by (auto split: option.splits)
qed

lemma FindStringSubmatch_None_iff: "FindStringSubmatch s = None \<longleftrightarrow> \<not> hasVersion s"
proof
  assume "FindStringSubmatch s = None"
  show "\<not> hasVersion s"
  proof
    assume "hasVersion s"
    then obtain pre major minor patch post where
      "s = pre @ ''Python '' @ major @ ''.'' @ minor @ ''.'' @ patch @ post"
      "allDigits major" "allDigits minor" "allDigits patch"
      unfolding hasVersion_def by blast
    with FindStringSubmatch_complete_aux [of major minor patch pre post]
      \<open>FindStringSubmatch s = None\<close> show False by simp
  qed
next
  assume "\<not> hasVersion s"
  then show "FindStringSubmatch s = None"
    using FindStringSubmatch_sound by (cases "FindStringSubmatch s") auto
qed

lemma no_banner: "\<not> hasVersion ''python3: not found''"
  unfolding FindStringSubmatch_None_iff [symmetric]
  by (simp add: matchHere_def)

lemma supported_nonempty: "dep \<in> set supportedApps \<Longrightarrow> dep \<noteq> []"
  by (auto simp: supportedApps_def FastAPI_def Flask_def Streamlit_def)

lemma findApp_set: "app \<noteq> [] \<Longrightarrow>
  findApp ds app = (if \<exists>d\<in>set ds. d \<in> set supportedApps then None else Some app)"
  by (induction ds) auto

lemma findApp_none_supported:
  "\<forall>d\<in>set ds. d \<notin> set supportedApps \<Longrightarrow> findApp ds app = Some app"
  by (induction ds) auto

lemma findApp_two:
  "a \<in> set ds \<Longrightarrow> b \<in> set ds \<Longrightarrow> a \<noteq> b \<Longrightarrow>
   a \<in> set supportedApps \<Longrightarrow> b \<in> set supportedApps \<Longrightarrow> findApp ds app = None"
proof (induction ds arbitrary: app)
  case Nil
  then show ?case by simp
next
  case (Cons d ds)
  show ?case
  proof (cases "d \<in> set supportedApps")
    case False
    with Cons.prems have "a \<in> set ds" "b \<in> set ds" by auto
    with Cons False show ?thesis by simp
  next
    case True
    show ?thesis
    proof (cases "app = []")
      case False
      with True show ?thesis by simp
    next
      case e: True
      from Cons.prems have "a \<in> set ds \<or> b \<in> set ds" by auto
      then have "\<exists>x\<in>set ds. x \<in> set supportedApps"
        using Cons.prems by blast
      with True e show ?thesis
        by (simp add: findApp_set supported_nonempty)
    qed
  qed
qed

lemma singleton_list: "distinct ds \<Longrightarrow> set ds = {x} \<Longrightarrow> ds = [x]"
proof -
  assume d: "distinct ds" and s: "set ds = {x}"
  then have "length ds = 1"
    using distinct_card [OF d] by simp
  then obtain y where "ds = [y]"
    by (cases ds) auto
  with s show ?thesis by simp
qed

lemma scanLoop_eq:
  "scanLoop dep path ls ep =
     (if list_ex (\<lambda>line. Contains line ''import'' \<and> Contains line dep) ls then Some path else ep)"
  by (induction ls arbitrary: ep) auto

lemma walkFrom_Visit:
  "walkFrom dep (Visit path err f # rest) ep =
     (if err \<noteq> None then ep
      else if pyFile path then
        (case f of
           OpenFails e \<Rightarrow> ep
         | Scanned ls serr \<Rightarrow>
             (if serr \<noteq> None then scanLoop dep path ls ep
              else walkFrom dep rest (scanLoop dep path ls ep)))
      else walkFrom dep rest ep)"
  by (simp add: pyFile_def)

lemma walkFrom_eq:
  "walkFrom dep vs ep =
     (case filter (qualifies dep) (visited vs) of
        [] \<Rightarrow> ep
      | q # qs \<Rightarrow> Some (vname (last (q # qs))))"
proof (induction dep vs ep rule: walkFrom.induct)
  case (1 dep ep)
  then show ?case by simp
next
  case (2 dep path err f rest ep)
  show ?case
  proof (cases "err \<noteq> None")
    case True
    then show ?thesis by auto
  next
    case noerr: False
    show ?thesis
    proof (cases "pyFile path")
      case False
      then have np: "\<not> (Ext path = ''.py'' \<and> \<not> Contains path ''.venv'')"
        unfolding pyFile_def .
      from noerr False 2(2) [OF noerr np] show ?thesis
        by (simp del: walkFrom.simps add: walkFrom_Visit)
    next
      case py: True
      then have p: "Ext path = ''.py'' \<and> \<not> Contains path ''.venv''"
        unfolding pyFile_def .
      show ?thesis
      proof (cases f)
        case (OpenFails e)
        with noerr py show ?thesis
          by (simp del: walkFrom.simps add: walkFrom_Visit)
      next
        case (Scanned ls serr)
        show ?thesis
        proof (cases "serr \<noteq> None")
          case True
          with noerr py Scanned show ?thesis
            by (simp del: walkFrom.simps add: walkFrom_Visit scanLoop_eq)
        next
          case False
          from noerr py Scanned False 2(1) [OF noerr p Scanned False] show ?thesis
            by (simp del: walkFrom.simps add: walkFrom_Visit scanLoop_eq split: list.splits)
        qed
      qed
    qed
  qed
qed

lemma visited_prefix: "prefix (visited vs) vs"
  by (induction vs) auto

lemma visited_clean: "\<forall>v\<in>set vs. \<not> stops v \<Longrightarrow> visited vs = vs"
  by (induction vs) auto

lemma filter_visited_Nil: "filter P vs = [] \<Longrightarrow> filter P (visited vs) = []"
proof -
  assume "filter P vs = []"
  moreover have "set (visited vs) \<subseteq> set vs"
    using visited_prefix by (rule set_mono_prefix)
  ultimately show ?thesis
    by (auto simp: filter_empty_conv)
qed

lemma last_not_hd: "distinct xs \<Longrightarrow> 2 \<le> length xs \<Longrightarrow> last xs \<noteq> hd xs"
  by (cases xs) auto

lemma distinct_names_visited:
  assumes "distinct (map vname vs)"
  shows "distinct (map vname (filter P (visited vs)))"
proof -
  from visited_prefix obtain r where "vs = visited vs @ r"
    by (auto simp: prefix_def)
  with assms have "distinct (map vname (visited vs))"
    by (metis distinct_append map_append)
  then show ?thesis
    by (simp add: distinct_map_filter)
qed

lemma twoApps_qualifying: "filter (qualifies ''streamlit'') (visited (tree twoApps)) =
    [Visit ''a.py'' None (Scanned [''import streamlit as st''] None),
     Visit ''pages/c.py'' None (Scanned [''x = 1'', ''from streamlit import write''] None)]"
  by (simp add: twoApps_def bare_def pyFile_def Ext_def)

section \<open>Facts about the detectors\<close>

lemma intoSource_returns: "\<exists>src. fst (intoSource w cfg) = Return src None"
  by (simp add: intoSource_def Let_def split: option.splits)

lemma intoSource_no_framework:
  "\<forall>dep\<in>set (deps cfg). dep \<notin> set supportedApps \<Longrightarrow>
   intoSource w cfg = (Return None None, [Warn ''No supported Python frameworks found''])"
  by (simp add: intoSource_def Let_def findApp_none_supported)

lemma fst_say: "fst (say ms r) = fst r"
  by (simp add: say_def)

lemma say_pair: "say ms (r, l) = (r, ms @ l)"
  by (simp add: say_def)

lemma extract_bare: "extractPythonVersion (bare ''Python 3.11.2'') = (''3.11.2'', False, None)"
  by (simp add: extractPythonVersion_def lockedVersion_def pythonVersionOutput_def bare_def
      matchHere_def digits1_def isDigit_def suffixOpt_def isLetter_def nonNumeric_def)

lemma poetry_checks:
  "checksPass (poetryProject ds) d [''poetry.lock'']"
  "checksPass (poetryProject ds) d [''pyproject.toml'']"
  "\<not> checksPass (poetryProject ds) d [''Pipfile'', ''Pipfile.lock'']"
  by (simp_all add: poetryProject_def bare_def anyOf_def)

lemma req_checks:
  "checksPass (requirementsProject ls) d [''requirements.txt'']"
  "\<not> checksPass (requirementsProject ls) d [''poetry.lock'']"
  "\<not> checksPass (requirementsProject ls) d [''pyproject.toml'']"
  "\<not> checksPass (requirementsProject ls) d [''Pipfile'', ''Pipfile.lock'']"
  "checksPass (requirementsProject ls) d markers"
  by (simp_all add: requirementsProject_def bare_def anyOf_def markers_def)

lemma req_file: "textfiles (requirementsProject ls) ''requirements.txt'' = Scanned ls None"
  by (simp add: requirementsProject_def bare_def)

lemma req_version: "extractPythonVersion (requirementsProject ls) = (''3.11.2'', False, None)"
  by (simp add: extractPythonVersion_def lockedVersion_def pythonVersionOutput_def bare_def
      requirementsProject_def matchHere_def digits1_def isDigit_def suffixOpt_def isLetter_def
      nonNumeric_def)

lemma parse_examples:
  "parsePyDep lower ''requests==2.31.0'' = ''requests''"
  "parsePyDep lower ''numpy'' = ''numpy''"
  "parsePyDep lower ''flask'' = ''flask''"
  "parsePyDep lower ''Flask>=2.0'' = ''flask''"
  "parsePyDep lower [] = []"
  "parsePyDep lower ''python'' = ''python''"
  "parsePyDep lower ''requests'' = ''requests''"
  by code_simp+

lemma req_plain:
  "configRequirements d (requirementsProject [''requests==2.31.0'', ''numpy'']) =
     (Return None None,
      [Info ''Detected requirements.txt'', Warn ''No supported Python frameworks found''])"
  by (simp add: configRequirements_def req_checks readLines_def req_file requirementsFrom_def
      req_version parse_examples intoSource_no_framework say_pair supportedApps_def
      FastAPI_def Flask_def Streamlit_def)

lemma configRequirements_file:
  assumes "requirementsFile w d = Some name"
  shows "configRequirements d w =
     say [Info (''Detected '' @ name)]
       (case readLines w name of
          Inl err \<Rightarrow> (Return None (Some err), [])
        | Inr req_deps \<Rightarrow> requirementsFrom d w req_deps)"
  using assms by (auto simp: requirementsFile_def configRequirements_def split: if_splits)

lemma requirementsFrom_lines:
  "ls \<noteq> [] \<Longrightarrow> extractPythonVersion w = (v, p, None) \<Longrightarrow>
   requirementsFrom d w ls =
     intoSource w \<lparr>pyVersion = v, appName = Base d, deps = map (parsePyDep (unicode_ToLower w)) ls, depStyle = Pip\<rparr>"
  by (simp add: requirementsFrom_def)

lemma requirementsFrom_not_empty_error:
  assumes "ls \<noteq> []"
  shows "fst (requirementsFrom d w ls) \<noteq>
           Return None (Some (Error ''No dependencies found in requirements file''))"
proof (cases "extractPythonVersion w")
  case (fields v p e)
  show ?thesis
  proof (cases e)
    case None
    with fields assms intoSource_returns
      [of w "\<lparr>pyVersion = v, appName = Base d, deps = map (parsePyDep (unicode_ToLower w)) ls, depStyle = Pip\<rparr>"]
    show ?thesis
      by (auto simp: requirementsFrom_lines)
  next
    case (Some err)
    with fields have "err = Error ''Could not find Python version''"
      by (auto simp: extractPythonVersion_def split: option.splits)
    with Some fields assms show ?thesis
      by (simp add: requirementsFrom_def)
  qed
qed

lemma req_name: "requirementsFile (requirementsProject ls) d = Some ''requirements.txt''"
  by (simp add: requirementsFile_def req_checks)

lemma configPoetry_reaches:
  assumes "checksPass w d [''poetry.lock'']" and "checksPass w d [''pyproject.toml'']"
    and "pyproject_toml w = Parsed p" and "Tool_Poetry_Dependencies p = Some es"
    and "map_of es ''python'' = Some (TString pv)"
  shows "configPoetry d w = say [Info ''Detected Poetry project'']
      (intoSource w
         \<lparr>pyVersion = parsePyDep (unicode_ToLower w) (TrimPrefix pv ''^''),
          appName = Tool_Poetry_Name p,
          deps = map (\<lambda>e. parsePyDep (unicode_ToLower w) (fst e)) es, depStyle = Poetry\<rparr>)"
  using assms by (simp add: configPoetry_def case_prod_unfold)

lemma configPyProject_reaches:
  assumes "checksPass w d [''pyproject.toml'']" and "pyproject_toml w = Parsed p"
    and "Project_Dependencies p = Some ts"
    and "Project_RequiresPython p = [] \<longrightarrow> snd (snd (extractPythonVersion w)) = None"
  shows "configPyProject d w = say [Info ''Detected pyproject.toml'']
      (intoSource w
         \<lparr>pyVersion = (if Project_RequiresPython p = [] then fst (extractPythonVersion w)
                       else trimVersion (unicode_IsDigit w) (Project_RequiresPython p)),
          appName = Project_Name p,
          deps = map (\<lambda>t. parsePyDep (unicode_ToLower w) (parsePyDep (unicode_ToLower w) t)) ts,
          depStyle = Pep621\<rparr>)"
proof (cases "extractPythonVersion w")
  case (fields v pin e)
  with assms show ?thesis
    by (simp add: configPyProject_def)
qed

lemma configPipfile_reaches:
  assumes "checksPass w d [''Pipfile'', ''Pipfile.lock'']" and "Pipfile_toml w = Parsed pf"
    and "Packages pf = Some ks" and "snd (snd (extractPythonVersion w)) = None"
  shows "configPipfile d w = say [Info ''Detected Pipfile'']
      (intoSource w
         \<lparr>pyVersion = fst (extractPythonVersion w), appName = Base d,
          deps = map (\<lambda>e. parsePyDep (unicode_ToLower w) (fst e)) ks, depStyle = Pipenv\<rparr>)"
proof (cases "extractPythonVersion w")
  case (fields v pin e)
  with assms show ?thesis
    by (simp add: configPipfile_def case_prod_unfold)
qed

lemma configRequirements_reaches:
  assumes "requirementsFile w d = Some name" and "textfiles w name = Scanned ls None"
    and "ls \<noteq> []" and "snd (snd (extractPythonVersion w)) = None"
  shows "configRequirements d w = say [Info (''Detected '' @ name)]
      (intoSource w
         \<lparr>pyVersion = fst (extractPythonVersion w), appName = Base d,
          deps = map (parsePyDep (unicode_ToLower w)) ls, depStyle = Pip\<rparr>)"
proof (cases "extractPythonVersion w")
  case (fields v pin e)
  from assms(2) have "readLines w name = Inr ls"
    by (simp add: readLines_def)
  with fields assms show ?thesis
    by (simp add: configRequirements_file requirementsFrom_lines)
qed

lemma absent_no_framework:
  assumes "\<forall>dep\<in>set (deps cfg). dep \<notin> set supportedApps"
  shows "say ms (intoSource w cfg) =
           (Return None None, ms @ [Warn ''No supported Python frameworks found''])"
  by (simp add: intoSource_no_framework [OF assms] say_pair)

lemma orElse_fst:
  "fst (orElse r next) = (if fst r \<noteq> Return None None then fst r else fst next)"
  by (cases "fst r") (auto simp: orElse_def fst_say)

section \<open>Claims\<close>

text \<open>
  C4. The canonicalizer is idempotent: for every token \<open>x\<close>, any sequence of bytes,
  \<open>parsePyDep (parsePyDep x) = parsePyDep x\<close>, whatever table \<^verbatim>\<open>unicode.ToLower\<close> is,
  provided it keeps runes encodable, lowers an already lowered rune to itself and
  agrees with the shift of \<^verbatim>\<open>'A'..'Z'\<close> on ASCII.
\<close>

theorem parsePyDep_idempotent:
  assumes "lowerTable lower"
  shows "parsePyDep lower (parsePyDep lower x) = parsePyDep lower x"
  by (rule canonical_fixed) (rule parsePyDep_canonical [OF assms])

theorem parsePyDep_idempotent_witness:
  "lowerTable sampleLower \<and>
   parsePyDep sampleLower ([CHR 0xE2, CHR 0x84, CHR 0xAA] @ ''IVY>=2'') = ''kivy'' \<and>
   parsePyDep sampleLower (parsePyDep sampleLower ([CHR 0xE2, CHR 0x84, CHR 0xAA] @ ''IVY>=2'')) =
     parsePyDep sampleLower ([CHR 0xE2, CHR 0x84, CHR 0xAA] @ ''IVY>=2'') \<and>
   parsePyDep sampleLower
     (parsePyDep sampleLower (''Caf'' @ [CHR 0xC3, CHR 0x89, CHR 0xFF] @ '' ; x'')) =
     parsePyDep sampleLower (''Caf'' @ [CHR 0xC3, CHR 0x89, CHR 0xFF] @ '' ; x'')"
proof -
  have d: "decodeRunes [226, 132, 170, 73, 86, 89, 62, 61, 50] = [0x212A, 73, 86, 89, 62, 61, 50]"
    by (simp add: decodeRunes.simps cont_def second_def)
  have t: "ToLower sampleLower ([CHR 0xE2, CHR 0x84, CHR 0xAA] @ ''IVY>=2'') = ''kivy>=2''"
    by (simp add: ToLower_def isASCII_def MapRunes_def d EncodeRune_def sampleLower_def
        char_of_eq_iff)
  have k: "parsePyDep sampleLower ([CHR 0xE2, CHR 0x84, CHR 0xAA] @ ''IVY>=2'') = ''kivy''"
    unfolding parsePyDep_def t by simp
  from parsePyDep_idempotent [OF lowerTable_sample, of "[CHR 0xE2, CHR 0x84, CHR 0xAA] @ ''IVY>=2''"]
    parsePyDep_idempotent [OF lowerTable_sample, of "''Caf'' @ [CHR 0xC3, CHR 0x89, CHR 0xFF] @ '' ; x''"]
    lowerTable_sample k
  show ?thesis by (simp only: simp_thms)
qed

text \<open>
  C1, as the code has it. When \<^verbatim>\<open>Pipfile.lock\<close> is read, decodes and declares a
  non-empty \<^verbatim>\<open>python_version\<close>, \<open>extractPythonVersion\<close> returns that string with no
  error, and the pinned flag is \<open>True\<close> whatever characters the string holds.
\<close>

theorem lockfile_version_pinned:
  assumes "Pipfile_lock w = Parsed l" and "Meta_Requires_PythonVersion l \<noteq> []"
  shows "extractPythonVersion w = (Meta_Requires_PythonVersion l, True, None)"
  using assms by (simp add: extractPythonVersion_def lockedVersion_def)

theorem lockfile_version_pinned_witness:
  "Pipfile_lock lockWorld = Parsed \<lparr>Meta_Requires_PythonVersion = ''3.11''\<rparr> \<and>
   extractPythonVersion lockWorld = (''3.11'', True, None)"
proof -
  have l: "Pipfile_lock lockWorld = Parsed \<lparr>Meta_Requires_PythonVersion = ''3.11''\<rparr>"
    by (simp add: lockWorld_def bare_def)
  have n: "Meta_Requires_PythonVersion \<lparr>Meta_Requires_PythonVersion = ''3.11''\<rparr> \<noteq> []"
    by simp
  from lockfile_version_pinned [OF l n] l show ?thesis by simp
qed

text \<open>
  C1 as stated fails: for the lockfile version \<^verbatim>\<open>3.11\<close>, which holds digits and a dot
  only, the pinned flag is \<open>True\<close>, not \<open>False\<close>.
\<close>

theorem lockfile_numeric_counterexample:
  "extractPythonVersion lockWorld = (''3.11'', True, None) \<and> \<not> nonNumeric ''3.11''"
  by (simp add: extractPythonVersion_def lockedVersion_def lockWorld_def bare_def nonNumeric_def isDigit_def)

text \<open>
  C6. When the lockfile tier yields nothing: the banner \<^verbatim>\<open>Python 3.11.2\<close> followed by
  a newline gives version \<^verbatim>\<open>3.11.2\<close>, not pinned; the banner \<^verbatim>\<open>Python 3.12.0b4\<close> gives
  \<^verbatim>\<open>3.12.0b4\<close>, pinned; and a text with no \<^verbatim>\<open>Python \<close> followed by three dotted runs of
  digits gives the error \<^verbatim>\<open>Could not find Python version\<close> and no version.
\<close>

theorem version_banner:
  assumes "lockedVersion w = None"
  shows "(pythonVersionOutput w = ''Python 3.11.2'' @ [CHR 0x0A] \<longrightarrow>
            extractPythonVersion w = (''3.11.2'', False, None)) \<and>
         (pythonVersionOutput w = ''Python 3.12.0b4'' \<longrightarrow>
            extractPythonVersion w = (''3.12.0b4'', True, None)) \<and>
         (\<not> hasVersion (pythonVersionOutput w) \<longrightarrow>
            extractPythonVersion w = ([], False, Some (Error ''Could not find Python version'')))"
proof (intro conjI impI)
  assume "pythonVersionOutput w = ''Python 3.11.2'' @ [CHR 0x0A]"
  moreover have "FindStringSubmatch (''Python 3.11.2'' @ [CHR 0x0A]) = Some ''3.11.2''"
    by (simp add: matchHere_def digits1_def isDigit_def suffixOpt_def isLetter_def)
  moreover have "\<not> nonNumeric ''3.11.2''"
    by (simp add: nonNumeric_def isDigit_def)
  ultimately show "extractPythonVersion w = (''3.11.2'', False, None)"
    using assms by (simp add: extractPythonVersion_def)
next
  assume "pythonVersionOutput w = ''Python 3.12.0b4''"
  moreover have "FindStringSubmatch ''Python 3.12.0b4'' = Some ''3.12.0b4''"
    by (simp add: matchHere_def digits1_def isDigit_def suffixOpt_def isLetter_def)
  moreover have "nonNumeric ''3.12.0b4''"
    by (simp add: nonNumeric_def isDigit_def)
  ultimately show "extractPythonVersion w = (''3.12.0b4'', True, None)"
    using assms by (simp add: extractPythonVersion_def)
next
  assume "\<not> hasVersion (pythonVersionOutput w)"
  then have "FindStringSubmatch (pythonVersionOutput w) = None"
    by (simp add: FindStringSubmatch_None_iff)
  with assms show "extractPythonVersion w = ([], False, Some (Error ''Could not find Python version''))"
    by (simp add: extractPythonVersion_def)
qed

theorem version_banner_witness:
  "lockedVersion (bare ''python3: not found'') = None \<and>
   \<not> hasVersion (pythonVersionOutput (bare ''python3: not found'')) \<and>
   extractPythonVersion (bare ''python3: not found'') =
     ([], False, Some (Error ''Could not find Python version'')) \<and>
   extractPythonVersion (bare (''Python 3.11.2'' @ [CHR 0x0A])) = (''3.11.2'', False, None) \<and>
   extractPythonVersion (bare ''Python 3.12.0b4'') = (''3.12.0b4'', True, None)"
proof -
  have l: "lockedVersion (bare b) = None" for b
    by (simp add: lockedVersion_def bare_def)
  have o: "pythonVersionOutput (bare b) = b" for b
    by (simp add: pythonVersionOutput_def bare_def)
  show ?thesis
    using version_banner [OF l, of "''python3: not found''"]
      version_banner [OF l, of "''Python 3.11.2'' @ [CHR 0x0A]"]
      version_banner [OF l, of "''Python 3.12.0b4''"] no_banner l
    by (simp add: o)
qed

text \<open>
  C3, as the code has it. A configuration whose dependency list has no repeated name
  and whose set of names is exactly \<open>{fastapi}\<close> gives a descriptor of family FastAPI
  on port 8000; with no repeated name and the set \<open>{flask}\<close>, family Flask on port
  8080; a list that holds both names gives no descriptor and no error, with the
  warning about multiple frameworks.
\<close>

theorem intoSource_frameworks:
  "(distinct (deps cfg) \<and> set (deps cfg) = {''fastapi''} \<longrightarrow>
      (\<exists>src. intoSource w cfg = (Return (Some src) None, []) \<and>
             Family src = ''FastAPI'' \<and> Port src = 8000)) \<and>
   (distinct (deps cfg) \<and> set (deps cfg) = {''flask''} \<longrightarrow>
      (\<exists>src. intoSource w cfg = (Return (Some src) None, []) \<and>
             Family src = ''Flask'' \<and> Port src = 8080)) \<and>
   (''fastapi'' \<in> set (deps cfg) \<and> ''flask'' \<in> set (deps cfg) \<longrightarrow>
      intoSource w cfg =
        (Return None None, [Warn ''Multiple supported Python frameworks found'']))"
proof (intro conjI impI)
  assume "distinct (deps cfg) \<and> set (deps cfg) = {''fastapi''}"
  then have "deps cfg = [''fastapi'']"
    by (simp add: singleton_list)
  then show "\<exists>src. intoSource w cfg = (Return (Some src) None, []) \<and>
             Family src = ''FastAPI'' \<and> Port src = 8000"
    by (simp add: intoSource_def supportedApps_def FastAPI_def Flask_def Streamlit_def Let_def)
next
  assume "distinct (deps cfg) \<and> set (deps cfg) = {''flask''}"
  then have "deps cfg = [''flask'']"
    by (simp add: singleton_list)
  then show "\<exists>src. intoSource w cfg = (Return (Some src) None, []) \<and>
             Family src = ''Flask'' \<and> Port src = 8080"
    by (simp add: intoSource_def supportedApps_def FastAPI_def Flask_def Streamlit_def Let_def)
next
  assume "''fastapi'' \<in> set (deps cfg) \<and> ''flask'' \<in> set (deps cfg)"
  then have "findApp (deps cfg) [] = None"
    by (intro findApp_two [of "''fastapi''" _ "''flask''"])
       (simp_all add: supportedApps_def FastAPI_def Flask_def)
  then show "intoSource w cfg =
        (Return None None, [Warn ''Multiple supported Python frameworks found''])"
    by (simp add: intoSource_def)
qed

theorem intoSource_frameworks_witness:
  "distinct (deps (cfgOf [''fastapi''])) \<and> set (deps (cfgOf [''fastapi''])) = {''fastapi''} \<and>
   (\<exists>src. intoSource (bare []) (cfgOf [''fastapi'']) = (Return (Some src) None, []) \<and>
          Family src = ''FastAPI'' \<and> Port src = 8000) \<and>
   distinct (deps (cfgOf [''flask''])) \<and> set (deps (cfgOf [''flask''])) = {''flask''} \<and>
   (\<exists>src. intoSource (bare []) (cfgOf [''flask'']) = (Return (Some src) None, []) \<and>
          Family src = ''Flask'' \<and> Port src = 8080) \<and>
   ''fastapi'' \<in> set (deps (cfgOf [''flask'', ''requests'', ''fastapi''])) \<and>
   ''flask'' \<in> set (deps (cfgOf [''flask'', ''requests'', ''fastapi''])) \<and>
   intoSource (bare []) (cfgOf [''flask'', ''requests'', ''fastapi'']) =
     (Return None None, [Warn ''Multiple supported Python frameworks found''])"
  using intoSource_frameworks [of "cfgOf [''fastapi'']" "bare []"]
    intoSource_frameworks [of "cfgOf [''flask'']" "bare []"]
    intoSource_frameworks [of "cfgOf [''flask'', ''requests'', ''fastapi'']" "bare []"]
  by (auto simp: cfgOf_def)

text \<open>
  C3 as stated fails: the list with \<^verbatim>\<open>fastapi\<close> twice, which the requirements detector
  builds from the lines \<^verbatim>\<open>fastapi\<close> and \<^verbatim>\<open>fastapi[all]>=0.100\<close>, has the set
  \<open>{fastapi}\<close>, and the classifier returns no descriptor for it.
\<close>

theorem repeated_fastapi_counterexample:
  "map (parsePyDep sampleLower) [''fastapi'', ''fastapi[all]>=0.100''] = [''fastapi'', ''fastapi''] \<and>
   set (deps (cfgOf [''fastapi'', ''fastapi''])) = {''fastapi''} \<and>
   intoSource (bare []) (cfgOf [''fastapi'', ''fastapi'']) =
     (Return None None, [Warn ''Multiple supported Python frameworks found''])"
proof -
  have "parsePyDep sampleLower ''fastapi'' = ''fastapi''"
    "parsePyDep sampleLower ''fastapi[all]>=0.100'' = ''fastapi''"
    by (simp_all add: parsePyDep_def ToLower_def isASCII_def toLowerByte_def)
  moreover have "intoSource (bare []) (cfgOf [''fastapi'', ''fastapi'']) =
     (Return None None, [Warn ''Multiple supported Python frameworks found''])"
    by (simp add: intoSource_def cfgOf_def supportedApps_def FastAPI_def Flask_def Streamlit_def)
  ultimately show ?thesis
    by (simp add: cfgOf_def)
qed

text \<open>
  C9, as the code has it. The walk ends at the first entry at which the walk function
  returns an error (a walk error, a Python file that cannot be opened, a scanner
  error); the files after it are not reached. \<open>findEntrypoint\<close> returns the
  qualifying file visited last among the files the walk reaches, and nothing when none
  of them qualifies. So when two or more of the files the walk reaches qualify it
  returns the last of them, which is not the first when the paths of the walk are
  distinct; when no file of the tree qualifies it returns nothing, and then
  \<open>intoSource\<close> on a streamlit configuration returns no descriptor and no error.
\<close>

theorem findEntrypoint_last:
  "findEntrypoint w dep =
     (case filter (qualifies dep) (visited (tree w)) of
        [] \<Rightarrow> None
      | q # qs \<Rightarrow> Some (vname (last (q # qs)))) \<and>
   (2 \<le> length (filter (qualifies dep) (visited (tree w))) \<longrightarrow>
      findEntrypoint w dep = Some (vname (last (filter (qualifies dep) (visited (tree w))))) \<and>
      (distinct (map vname (tree w)) \<longrightarrow>
         findEntrypoint w dep \<noteq> Some (vname (hd (filter (qualifies dep) (visited (tree w))))))) \<and>
   (filter (qualifies dep) (tree w) = [] \<longrightarrow>
      findEntrypoint w dep = None \<and>
      (dep = ''streamlit'' \<and> findApp (deps cfg) [] = Some Streamlit \<longrightarrow>
         intoSource w cfg = (Return None None, [])))"
proof (intro conjI impI)
  show "findEntrypoint w dep =
     (case filter (qualifies dep) (visited (tree w)) of
        [] \<Rightarrow> None
      | q # qs \<Rightarrow> Some (vname (last (q # qs))))"
    by (simp add: findEntrypoint_def walkFrom_eq)
next
  assume two: "2 \<le> length (filter (qualifies dep) (visited (tree w)))"
  then show r: "findEntrypoint w dep =
      Some (vname (last (filter (qualifies dep) (visited (tree w)))))"
    by (cases "filter (qualifies dep) (visited (tree w))")
       (simp_all add: findEntrypoint_def walkFrom_eq)
  assume "distinct (map vname (tree w))"
  then have "distinct (map vname (filter (qualifies dep) (visited (tree w))))"
    by (rule distinct_names_visited)
  with two have "last (map vname (filter (qualifies dep) (visited (tree w)))) \<noteq>
      hd (map vname (filter (qualifies dep) (visited (tree w))))"
    by (intro last_not_hd) simp_all
  moreover from two have "filter (qualifies dep) (visited (tree w)) \<noteq> []"
    by auto
  ultimately show "findEntrypoint w dep \<noteq>
      Some (vname (hd (filter (qualifies dep) (visited (tree w)))))"
    using r by (simp add: last_map hd_map)
next
  assume "filter (qualifies dep) (tree w) = []"
  then have "filter (qualifies dep) (visited (tree w)) = []"
    by (rule filter_visited_Nil)
  then show n: "findEntrypoint w dep = None"
    by (simp add: findEntrypoint_def walkFrom_eq)
  assume "dep = ''streamlit'' \<and> findApp (deps cfg) [] = Some Streamlit"
  with n show "intoSource w cfg = (Return None None, [])"
    by (simp add: intoSource_def Let_def Streamlit_def FastAPI_def Flask_def)
qed

theorem findEntrypoint_last_witness:
  "2 \<le> length (filter (qualifies ''streamlit'') (visited (tree twoApps))) \<and>
   distinct (map vname (tree twoApps)) \<and>
   findEntrypoint twoApps ''streamlit'' = Some ''pages/c.py'' \<and>
   findEntrypoint twoApps ''streamlit'' \<noteq> Some ''a.py'' \<and>
   filter (qualifies ''streamlit'') (tree noApp) = [] \<and>
   findApp (deps (cfgOf [''streamlit''])) [] = Some Streamlit \<and>
   findEntrypoint noApp ''streamlit'' = None \<and>
   intoSource noApp (cfgOf [''streamlit'']) = (Return None None, [])"
proof -
  have d: "distinct (map vname (tree twoApps))"
    by (simp add: twoApps_def bare_def)
  have n: "filter (qualifies ''streamlit'') (tree noApp) = []"
    by (simp add: noApp_def bare_def pyFile_def Ext_def)
  have a: "findApp (deps (cfgOf [''streamlit''])) [] = Some Streamlit"
    by (simp add: cfgOf_def supportedApps_def Streamlit_def FastAPI_def Flask_def)
  show ?thesis
    using findEntrypoint_last [where dep = "''streamlit''" and w = twoApps
        and cfg = "cfgOf [''streamlit'']", THEN conjunct2]
      findEntrypoint_last [where dep = "''streamlit''" and w = noApp
        and cfg = "cfgOf [''streamlit'']", THEN conjunct2] d n a
    by (simp add: twoApps_qualifying)
qed

text \<open>
  C9 as stated fails: in the tree of \<open>brokenLink\<close> two Python files import streamlit
  and \<^verbatim>\<open>c.py\<close> is the later one in walk order, yet the walk ends at \<^verbatim>\<open>b.py\<close> and the
  result is \<^verbatim>\<open>a.py\<close>, the first.
\<close>

theorem unreadable_file_counterexample:
  "map vname (filter (qualifies ''streamlit'') (tree brokenLink)) = [''a.py'', ''c.py''] \<and>
   findEntrypoint brokenLink ''streamlit'' = Some ''a.py''"
  by (simp add: findEntrypoint_def brokenLink_def bare_def pyFile_def Ext_def)

text \<open>
  C5. The result of \<open>parsePyDep\<close> should be the bare package identifier, with no
  \<^verbatim>\<open>=\<close> (or other constraint character) followed by further content. On the requirement
  \<^verbatim>\<open>flask!=2.0\<close> the code returns the token unchanged: the exclusion operator is not
  among the separators it cuts at.
\<close>

theorem parsePyDep_keeps_not_equal: "parsePyDep lower ''flask!=2.0'' = ''flask!=2.0''"
  by (simp add: parsePyDep_def ToLower_def isASCII_def toLowerByte_def)

text \<open>
  C10. For a Poetry project whose \<^verbatim>\<open>pyproject.toml\<close> decodes with a non-nil
  \<^verbatim>\<open>tool.poetry.dependencies\<close> table: when the table has no \<^verbatim>\<open>python\<close> key, or maps it
  to a value that is not a string, \<open>configPoetry\<close> panics (it returns neither a
  descriptor nor an error); when it maps \<^verbatim>\<open>python\<close> to a string the function returns,
  with no error; so it returns only if \<^verbatim>\<open>python\<close> maps to a string.
\<close>

theorem configPoetry_python_entry:
  assumes "checksPass w d [''poetry.lock'']" and "checksPass w d [''pyproject.toml'']"
    and "pyproject_toml w = Parsed p" and "Tool_Poetry_Dependencies p = Some ds"
  shows "(map_of ds ''python'' = None \<or> map_of ds ''python'' = Some TOther \<longrightarrow>
            fst (configPoetry d w) = Panic) \<and>
         (\<forall>v. map_of ds ''python'' = Some (TString v) \<longrightarrow>
            (\<exists>src. fst (configPoetry d w) = Return src None)) \<and>
         (fst (configPoetry d w) \<noteq> Panic \<longrightarrow>
            (\<exists>v. map_of ds ''python'' = Some (TString v)))"
proof (intro conjI allI impI)
  assume "map_of ds ''python'' = None \<or> map_of ds ''python'' = Some TOther"
  with assms show "fst (configPoetry d w) = Panic"
    by (auto simp: configPoetry_def fst_say)
next
  fix v assume "map_of ds ''python'' = Some (TString v)"
  with assms show "\<exists>src. fst (configPoetry d w) = Return src None"
    by (simp add: configPoetry_def fst_say intoSource_returns)
next
  assume np: "fst (configPoetry d w) \<noteq> Panic"
  show "\<exists>v. map_of ds ''python'' = Some (TString v)"
  proof (cases "map_of ds ''python''")
    case None
    with assms np show ?thesis
      by (auto simp: configPoetry_def fst_say)
  next
    case (Some t)
    with assms np show ?thesis
      by (cases t) (auto simp: configPoetry_def fst_say)
  qed
qed

theorem configPoetry_python_entry_witness:
  "checksPass (poetryProject [(''requests'', TString ''^2.31'')]) ''/app'' [''poetry.lock''] \<and>
   checksPass (poetryProject [(''requests'', TString ''^2.31'')]) ''/app'' [''pyproject.toml''] \<and>
   map_of [(''requests'', TString ''^2.31'')] ''python'' = None \<and>
   fst (configPoetry ''/app'' (poetryProject [(''requests'', TString ''^2.31'')])) = Panic \<and>
   map_of [(''python'', TString ''^3.11''), (''flask'', TOther)] ''python'' = Some (TString ''^3.11'') \<and>
   fst (configPoetry ''/app'' (poetryProject [(''python'', TString ''^3.11''), (''flask'', TOther)]))
     \<noteq> Panic"
proof -
  have p: "pyproject_toml (poetryProject ds) = Parsed
        \<lparr>Project_Name = [], Project_Version = [], Project_Dependencies = None,
         Project_RequiresPython = [], Tool_Poetry_Name = ''shop'',
         Tool_Poetry_Version = ''0.1.0'', Tool_Poetry_Dependencies = Some ds\<rparr>" for ds
    by (simp add: poetryProject_def bare_def)
  show ?thesis
    using configPoetry_python_entry [where w = "poetryProject [(''requests'', TString ''^2.31'')]"
        and d = "''/app''" and ds = "[(''requests'', TString ''^2.31'')]", OF poetry_checks(1,2) p]
      configPoetry_python_entry [where w = "poetryProject [(''python'', TString ''^3.11''), (''flask'', TOther)]"
        and d = "''/app''" and ds = "[(''python'', TString ''^3.11''), (''flask'', TOther)]",
        OF poetry_checks(1,2) p]
      poetry_checks(1,2)
    by auto
qed

text \<open>
  C2, as the code has it. When a detector reaches the classifier (its files exist and
  decode, its dependency data is there and, for the detectors that resolve the runtime
  version first, the resolver succeeds) with a dependency list that matches no
  supported framework, the classifier returns no descriptor and no error, with the
  warning, and that detector reports absent. \<open>configurePython\<close> returns the result of
  the first detector in priority order that is not absent (a descriptor, a hard error
  or a panic) and runs the generic path exactly when all four detectors are absent:
  absent if no marker file exists, the version resolver's error if it fails, otherwise
  the generic descriptor, of family Python on port 8080.
\<close>

theorem no_framework_fallback:
  "(checksPass w d [''poetry.lock''] \<and> checksPass w d [''pyproject.toml''] \<and>
    pyproject_toml w = Parsed p \<and> Tool_Poetry_Dependencies p = Some es \<and>
    map_of es ''python'' = Some (TString pv) \<and>
    (\<forall>e\<in>set es. parsePyDep (unicode_ToLower w) (fst e) \<notin> set supportedApps) \<longrightarrow>
      configPoetry d w =
        (Return None None,
         [Info ''Detected Poetry project'', Warn ''No supported Python frameworks found''])) \<and>
   (checksPass w d [''pyproject.toml''] \<and> pyproject_toml w = Parsed p \<and>
    Project_Dependencies p = Some ts \<and>
    (Project_RequiresPython p = [] \<longrightarrow> snd (snd (extractPythonVersion w)) = None) \<and>
    (\<forall>t\<in>set ts. parsePyDep (unicode_ToLower w) (parsePyDep (unicode_ToLower w) t)
       \<notin> set supportedApps) \<longrightarrow>
      configPyProject d w =
        (Return None None,
         [Info ''Detected pyproject.toml'', Warn ''No supported Python frameworks found''])) \<and>
   (checksPass w d [''Pipfile'', ''Pipfile.lock''] \<and> Pipfile_toml w = Parsed pf \<and>
    Packages pf = Some ks \<and> snd (snd (extractPythonVersion w)) = None \<and>
    (\<forall>e\<in>set ks. parsePyDep (unicode_ToLower w) (fst e) \<notin> set supportedApps) \<longrightarrow>
      configPipfile d w =
        (Return None None,
         [Info ''Detected Pipfile'', Warn ''No supported Python frameworks found''])) \<and>
   (requirementsFile w d = Some name \<and> textfiles w name = Scanned ls None \<and> ls \<noteq> [] \<and>
    snd (snd (extractPythonVersion w)) = None \<and>
    (\<forall>l\<in>set ls. parsePyDep (unicode_ToLower w) l \<notin> set supportedApps) \<longrightarrow>
      configRequirements d w =
        (Return None None,
         [Info (''Detected '' @ name), Warn ''No supported Python frameworks found''])) \<and>
   fst (configurePython d w) =
     (if fst (configPoetry d w) \<noteq> Return None None then fst (configPoetry d w)
      else if fst (configPyProject d w) \<noteq> Return None None then fst (configPyProject d w)
      else if fst (configPipfile d w) \<noteq> Return None None then fst (configPipfile d w)
      else if fst (configRequirements d w) \<noteq> Return None None
        then fst (configRequirements d w)
      else if \<not> checksPass w d markers then Return None None
      else case extractPythonVersion w of
             (version, _, Some err) \<Rightarrow> Return None (Some err)
           | (version, _, None) \<Rightarrow> Return (Some (generic version)) None) \<and>
   Family (generic version) = ''Python'' \<and> Port (generic version) = 8080"
proof (intro conjI impI)
  assume a: "checksPass w d [''poetry.lock''] \<and> checksPass w d [''pyproject.toml''] \<and>
    pyproject_toml w = Parsed p \<and> Tool_Poetry_Dependencies p = Some es \<and>
    map_of es ''python'' = Some (TString pv) \<and>
    (\<forall>e\<in>set es. parsePyDep (unicode_ToLower w) (fst e) \<notin> set supportedApps)"
  then have "configPoetry d w = say [Info ''Detected Poetry project'']
      (intoSource w
         \<lparr>pyVersion = parsePyDep (unicode_ToLower w) (TrimPrefix pv ''^''),
          appName = Tool_Poetry_Name p,
          deps = map (\<lambda>e. parsePyDep (unicode_ToLower w) (fst e)) es, depStyle = Poetry\<rparr>)"
    by (intro configPoetry_reaches) simp_all
  with a show "configPoetry d w =
        (Return None None,
         [Info ''Detected Poetry project'', Warn ''No supported Python frameworks found''])"
    by (simp add: absent_no_framework)
next
  assume a: "checksPass w d [''pyproject.toml''] \<and> pyproject_toml w = Parsed p \<and>
    Project_Dependencies p = Some ts \<and>
    (Project_RequiresPython p = [] \<longrightarrow> snd (snd (extractPythonVersion w)) = None) \<and>
    (\<forall>t\<in>set ts. parsePyDep (unicode_ToLower w) (parsePyDep (unicode_ToLower w) t)
       \<notin> set supportedApps)"
  then have "configPyProject d w = say [Info ''Detected pyproject.toml'']
      (intoSource w
         \<lparr>pyVersion = (if Project_RequiresPython p = [] then fst (extractPythonVersion w)
                       else trimVersion (unicode_IsDigit w) (Project_RequiresPython p)),
          appName = Project_Name p,
          deps = map (\<lambda>t. parsePyDep (unicode_ToLower w) (parsePyDep (unicode_ToLower w) t)) ts,
          depStyle = Pep621\<rparr>)"
    by (intro configPyProject_reaches) simp_all
  with a show "configPyProject d w =
        (Return None None,
         [Info ''Detected pyproject.toml'', Warn ''No supported Python frameworks found''])"
    by (simp add: absent_no_framework)
next
  assume a: "checksPass w d [''Pipfile'', ''Pipfile.lock''] \<and> Pipfile_toml w = Parsed pf \<and>
    Packages pf = Some ks \<and> snd (snd (extractPythonVersion w)) = None \<and>
    (\<forall>e\<in>set ks. parsePyDep (unicode_ToLower w) (fst e) \<notin> set supportedApps)"
  then have "configPipfile d w = say [Info ''Detected Pipfile'']
      (intoSource w
         \<lparr>pyVersion = fst (extractPythonVersion w), appName = Base d,
          deps = map (\<lambda>e. parsePyDep (unicode_ToLower w) (fst e)) ks, depStyle = Pipenv\<rparr>)"
    by (intro configPipfile_reaches [where pf = pf]) simp_all
  with a show "configPipfile d w =
        (Return None None,
         [Info ''Detected Pipfile'', Warn ''No supported Python frameworks found''])"
    by (simp add: absent_no_framework)
next
  assume a: "requirementsFile w d = Some name \<and> textfiles w name = Scanned ls None \<and> ls \<noteq> [] \<and>
    snd (snd (extractPythonVersion w)) = None \<and>
    (\<forall>l\<in>set ls. parsePyDep (unicode_ToLower w) l \<notin> set supportedApps)"
  then have "configRequirements d w = say [Info (''Detected '' @ name)]
      (intoSource w
         \<lparr>pyVersion = fst (extractPythonVersion w), appName = Base d,
          deps = map (parsePyDep (unicode_ToLower w)) ls, depStyle = Pip\<rparr>)"
    by (intro configRequirements_reaches) simp_all
  with a show "configRequirements d w =
        (Return None None,
         [Info (''Detected '' @ name), Warn ''No supported Python frameworks found''])"
    by (simp add: absent_no_framework)
next
  show "fst (configurePython d w) =
     (if fst (configPoetry d w) \<noteq> Return None None then fst (configPoetry d w)
      else if fst (configPyProject d w) \<noteq> Return None None then fst (configPyProject d w)
      else if fst (configPipfile d w) \<noteq> Return None None then fst (configPipfile d w)
      else if fst (configRequirements d w) \<noteq> Return None None
        then fst (configRequirements d w)
      else if \<not> checksPass w d markers then Return None None
      else case extractPythonVersion w of
             (version, _, Some err) \<Rightarrow> Return None (Some err)
           | (version, _, None) \<Rightarrow> Return (Some (generic version)) None)"
    by (simp add: configurePython_def orElse_fst markers_def split: prod.splits option.splits)
qed (simp_all add: generic_def)

theorem no_framework_fallback_witness:
  "requirementsFile (requirementsProject [''requests==2.31.0'', ''numpy'']) ''/app'' =
     Some ''requirements.txt'' \<and>
   textfiles (requirementsProject [''requests==2.31.0'', ''numpy'']) ''requirements.txt'' =
     Scanned [''requests==2.31.0'', ''numpy''] None \<and>
   extractPythonVersion (requirementsProject [''requests==2.31.0'', ''numpy'']) =
     (''3.11.2'', False, None) \<and>
   set (map (parsePyDep sampleLower) [''requests==2.31.0'', ''numpy'']) \<inter> set supportedApps = {} \<and>
   configRequirements ''/app'' (requirementsProject [''requests==2.31.0'', ''numpy'']) =
     (Return None None,
      [Info ''Detected requirements.txt'', Warn ''No supported Python frameworks found'']) \<and>
   fst (configurePython ''/app'' (requirementsProject [''requests==2.31.0'', ''numpy''])) =
     Return (Some (generic ''3.11.2'')) None \<and>
   Port (generic ''3.11.2'') = 8080"
proof -
  let ?w = "requirementsProject [''requests==2.31.0'', ''numpy'']"
  have l: "unicode_ToLower ?w = sampleLower"
    by (simp add: requirementsProject_def bare_def)
  have s: "set (map (parsePyDep sampleLower) [''requests==2.31.0'', ''numpy'']) \<inter> set supportedApps = {}"
    by (simp add: parse_examples supportedApps_def FastAPI_def Flask_def Streamlit_def)
  then have b: "\<forall>l\<in>set [''requests==2.31.0'', ''numpy'']. parsePyDep sampleLower l \<notin> set supportedApps"
    by auto
  have d: "fst (configPoetry ''/app'' ?w) = Return None None"
      "fst (configPyProject ''/app'' ?w) = Return None None"
      "fst (configPipfile ''/app'' ?w) = Return None None"
    by (simp_all add: configPoetry_def configPyProject_def configPipfile_def req_checks)
  have r: "configRequirements ''/app'' ?w =
     (Return None None,
      [Info ''Detected requirements.txt'', Warn ''No supported Python frameworks found''])"
    using no_framework_fallback [where w = ?w and d = "''/app''" and name = "''requirements.txt''"
        and ls = "[''requests==2.31.0'', ''numpy'']"]
      req_name [of "[''requests==2.31.0'', ''numpy'']" "''/app''"]
      req_file [of "[''requests==2.31.0'', ''numpy'']"]
      req_version [of "[''requests==2.31.0'', ''numpy'']"] b
    by (simp add: l)
  have g: "fst (configurePython ''/app'' ?w) = Return (Some (generic ''3.11.2'')) None"
    using no_framework_fallback [where w = ?w and d = "''/app''"] d r
      req_checks(5) [of "[''requests==2.31.0'', ''numpy'']" "''/app''"]
    by (simp add: req_version)
  show ?thesis
    using req_name [of "[''requests==2.31.0'', ''numpy'']" "''/app''"]
      req_file [of "[''requests==2.31.0'', ''numpy'']"]
      req_version [of "[''requests==2.31.0'', ''numpy'']"] s r g
      no_framework_fallback [where version = "''3.11.2''"]
    by simp
qed

text \<open>
  C2 as stated fails: in a Poetry project without a supported framework the Poetry
  detector applies and reports absent, and the next detector, which reads the same
  \<^verbatim>\<open>pyproject.toml\<close>, finds no \<^verbatim>\<open>project.dependencies\<close> and returns a hard error.
\<close>

theorem no_framework_poetry_counterexample:
  "configPoetry ''/app'' plainPoetry =
     (Return None None,
      [Info ''Detected Poetry project'', Warn ''No supported Python frameworks found'']) \<and>
   fst (configurePython ''/app'' plainPoetry) =
     Return None (Some (Error ''No dependencies found in pyproject.toml''))"
proof -
  have p: "pyproject_toml plainPoetry = Parsed
        \<lparr>Project_Name = [], Project_Version = [], Project_Dependencies = None,
         Project_RequiresPython = [], Tool_Poetry_Name = ''shop'',
         Tool_Poetry_Version = ''0.1.0'',
         Tool_Poetry_Dependencies = Some [(''python'', TString ''^3.11''), (''requests'', TString ''^2.31'')]\<rparr>"
    by (simp add: plainPoetry_def poetryProject_def bare_def)
  have c: "checksPass plainPoetry ''/app'' [''poetry.lock'']"
      "checksPass plainPoetry ''/app'' [''pyproject.toml'']"
    by (simp_all add: plainPoetry_def poetry_checks)
  have a: "configPoetry ''/app'' plainPoetry =
     (Return None None,
      [Info ''Detected Poetry project'', Warn ''No supported Python frameworks found''])"
    by (simp add: configPoetry_def c p parse_examples intoSource_no_framework say_pair
        supportedApps_def FastAPI_def Flask_def Streamlit_def)
  have b: "fst (configPyProject ''/app'' plainPoetry) =
     Return None (Some (Error ''No dependencies found in pyproject.toml''))"
    by (simp add: configPyProject_def c p fst_say)
  from a b show ?thesis
    by (simp add: configurePython_def orElse_def fst_say)
qed

text \<open>
  C7, as the code has it. Every line the scanner yields from the requirements file,
  a blank line included, is one raw token and is canonicalized on its own. The
  detector returns the error \<^verbatim>\<open>No dependencies found in requirements file\<close> when the
  file has no line at all, and never when it has a line.
\<close>

theorem requirements_lines:
  assumes "requirementsFile w d = Some name" and "textfiles w name = Scanned ls None"
  shows "(ls = [] \<longrightarrow>
            configRequirements d w =
              (Return None (Some (Error ''No dependencies found in requirements file'')),
               [Info (''Detected '' @ name)])) \<and>
         (ls \<noteq> [] \<longrightarrow>
            fst (configRequirements d w) \<noteq>
              Return None (Some (Error ''No dependencies found in requirements file'')) \<and>
            (\<forall>v p. extractPythonVersion w = (v, p, None) \<longrightarrow>
               configRequirements d w =
                 say [Info (''Detected '' @ name)]
                   (intoSource w \<lparr>pyVersion = v, appName = Base d,
                                  deps = map (parsePyDep (unicode_ToLower w)) ls, depStyle = Pip\<rparr>)))"
proof -
  have r: "readLines w name = Inr ls"
    using assms(2) by (simp add: readLines_def)
  have c: "configRequirements d w = say [Info (''Detected '' @ name)] (requirementsFrom d w ls)"
    using configRequirements_file [OF assms(1)] r by simp
  show ?thesis
  proof (intro conjI impI allI)
    assume "ls = []"
    then show "configRequirements d w =
              (Return None (Some (Error ''No dependencies found in requirements file'')),
               [Info (''Detected '' @ name)])"
      by (simp add: c requirementsFrom_def say_pair)
  next
    assume "ls \<noteq> []"
    then show "fst (configRequirements d w) \<noteq>
              Return None (Some (Error ''No dependencies found in requirements file''))"
      by (simp add: c fst_say requirementsFrom_not_empty_error)
  next
    fix v p
    assume "ls \<noteq> []" and "extractPythonVersion w = (v, p, None)"
    then show "configRequirements d w =
                 say [Info (''Detected '' @ name)]
                   (intoSource w \<lparr>pyVersion = v, appName = Base d,
                                  deps = map (parsePyDep (unicode_ToLower w)) ls, depStyle = Pip\<rparr>)"
      by (simp add: c requirementsFrom_lines)
  qed
qed

theorem requirements_lines_witness:
  "requirementsFile (requirementsProject []) ''/app'' = Some ''requirements.txt'' \<and>
   textfiles (requirementsProject []) ''requirements.txt'' = Scanned [] None \<and>
   configRequirements ''/app'' (requirementsProject []) =
     (Return None (Some (Error ''No dependencies found in requirements file'')),
      [Info ''Detected requirements.txt'']) \<and>
   textfiles (requirementsProject ['''', ''Flask>=2.0'']) ''requirements.txt'' =
     Scanned ['''', ''Flask>=2.0''] None \<and>
   extractPythonVersion (requirementsProject ['''', ''Flask>=2.0'']) = (''3.11.2'', False, None) \<and>
   configRequirements ''/app'' (requirementsProject ['''', ''Flask>=2.0'']) =
     say [Info ''Detected requirements.txt'']
       (intoSource (requirementsProject ['''', ''Flask>=2.0''])
          \<lparr>pyVersion = ''3.11.2'', appName = ''app'', deps = ['''', ''flask''], depStyle = Pip\<rparr>)"
proof -
  have b: "Base ''/app'' = ''app''"
    by (simp add: Base_def)
  show ?thesis
    using requirements_lines [OF req_name req_file, of "[]" "''/app''"]
      requirements_lines [OF req_name req_file, of "['''', ''Flask>=2.0'']" "''/app''"]
      req_name [of "[]" "''/app''"] req_file [of "[]"] req_file [of "['''', ''Flask>=2.0'']"]
      req_version [of "['''', ''Flask>=2.0'']"]
    by (auto simp add: parse_examples b)
qed

text \<open>
  C7 as stated fails: a requirements file of two blank lines yields no token once blank
  lines are ignored, yet the detector returns no error (the blank lines were kept as
  two empty names, and the result is absent).
\<close>

theorem blank_requirements_counterexample:
  "textfiles (requirementsProject ['''', '''']) ''requirements.txt'' = Scanned ['''', ''''] None \<and>
   filter (\<lambda>line. line \<noteq> []) ['''', ''''] = [] \<and>
   configRequirements ''/app'' (requirementsProject ['''', '''']) =
     (Return None None,
      [Info ''Detected requirements.txt'', Warn ''No supported Python frameworks found''])"
  by (simp add: configRequirements_def req_checks readLines_def req_file requirementsFrom_def
      req_version parse_examples intoSource_no_framework say_pair supportedApps_def
      FastAPI_def Flask_def Streamlit_def)




end
